theory Spec2Isabelle
  imports Main
begin

section \<open>The shell post-processor of packer-post-processor-shell\<close>

text \<open>
  The development embeds \<^verbatim>\<open>shell/post-processor.go\<close> (\<^verbatim>\<open>Configure\<close>,
  \<^verbatim>\<open>PostProcess\<close>) and \<^verbatim>\<open>shell/artifact.go\<close> (\<^verbatim>\<open>NewArtifact\<close> and the methods
  of \<^verbatim>\<open>Artifact\<close>). Calls into the Go standard library and into packer are the
  boundary of the program: the file system is an explicit map from paths to
  contents, and every call whose outcome the program cannot determine
  (creating a temporary file, writing, opening, removing, running \<^verbatim>\<open>/bin/sh\<close>,
  \<^verbatim>\<open>os.Stat\<close>, rendering a template) is a field of a record of outcomes, so that every theorem
  holds whatever the operating system answers.
\<close>

subsection \<open>Data model\<close>

text \<open>
  A Go slice is \<^verbatim>\<open>nil\<close> or a sequence; \<^verbatim>\<open>Configure\<close> and \<^verbatim>\<open>PostProcess\<close> test
  \<^verbatim>\<open>Inline\<close> against \<^verbatim>\<open>nil\<close>, so the slice fields are optional lists. \<^verbatim>\<open>len\<close> of the
  nil slice is 0 and a \<^verbatim>\<open>range\<close> over it runs no iteration.
\<close>

type_synonym slice = "string list option"

definition len :: "slice \<Rightarrow> nat" where
  "len s = (case s of None \<Rightarrow> 0 | Some xs \<Rightarrow> length xs)"

definition elems :: "slice \<Rightarrow> string list" where
  "elems s = (case s of None \<Rightarrow> [] | Some xs \<Rightarrow> xs)"

text \<open>\<^verbatim>\<open>type Config struct\<close>; of the embedded \<^verbatim>\<open>common.PackerConfig\<close> the two fields
  the program reads.\<close>

record Config =
  PackerBuildName :: string
  PackerBuilderType :: string
  Inline :: slice
  InlineShebang :: string
  Script :: string
  Vars :: slice
  Scripts :: slice
  TargetPath :: string
  KeepInputArtifact :: bool

text \<open>The incoming \<^verbatim>\<open>packer.Artifact\<close>: an interface, seen through the values its
  methods return.\<close>

record packer_Artifact =
  pa_BuilderId :: string
  pa_Files :: "string list"
  pa_Id :: string
  pa_String :: string

text \<open>\<^verbatim>\<open>type Artifact struct\<close> of package \<^verbatim>\<open>shell\<close>.\<close>

record Artifact =
  Path :: string
  BuilderId :: string
  Provider :: string

text \<open>
  \<^verbatim>\<open>NewArtifact(provider, builderId string, path string)\<close> fills \<^verbatim>\<open>Path\<close> and
  \<^verbatim>\<open>Provider\<close> of the composite literal; the field \<^verbatim>\<open>BuilderId\<close> is not listed there
  and so holds the zero value of \<^verbatim>\<open>string\<close>.
\<close>

definition NewArtifact :: "string \<Rightarrow> string \<Rightarrow> string \<Rightarrow> Artifact" where
  "NewArtifact provider builderId path =
     \<lparr>Path = path, BuilderId = [], Provider = provider\<rparr>"

text \<open>The methods of \<^verbatim>\<open>*Artifact\<close>. The source declares \<^verbatim>\<open>BuilderId\<close> with an unnamed
  receiver and returns \<^verbatim>\<open>a.BuilderId\<close>: the field of the receiver.\<close>

definition Artifact_BuilderId :: "Artifact \<Rightarrow> string" where
  "Artifact_BuilderId a = BuilderId a"

definition Artifact_Files :: "Artifact \<Rightarrow> string list" where
  "Artifact_Files a = [Path a]"

definition Artifact_Id :: "Artifact \<Rightarrow> string" where
  "Artifact_Id a = Provider a"

definition Artifact_String :: "Artifact \<Rightarrow> string" where
  "Artifact_String a = [CHR 0x27] @ Provider a @ [CHR 0x27] @ '' provider box: '' @ Path a"

subsection \<open>The world outside the program\<close>

text \<open>The result of one \<^verbatim>\<open>cmd.Run()\<close>: its error (\<^verbatim>\<open>nil\<close> is \<open>None\<close>; a process that
  does not start or exits non-zero gives an error) and what the process wrote to the
  two buffers.\<close>

record cmd_result =
  run_err :: "string option"
  run_stdout :: string
  run_stderr :: string

text \<open>One call of \<^verbatim>\<open>cmd.Run()\<close> as the program issued it.\<close>

record exec_event =
  ex_name :: string
  ex_args :: "string list"
  ex_env :: "string list"
  ex_result :: cmd_result

datatype ui_event = Say string | Message string

text \<open>The state the program acts on: the files on disk, and, as a history, the
  processes it ran, the calls of \<^verbatim>\<open>os.Remove\<close> it made, each with its path and the
  error it returned, and the lines it sent to \<^verbatim>\<open>packer.Ui\<close>.\<close>

record world =
  files :: "string \<rightharpoonup> string"
  execs :: "exec_event list"
  removes :: "(string \<times> string option) list"
  ui_out :: "ui_event list"

text \<open>
  The answers of the operating system. \<open>sys_TempFile\<close> is the error of
  \<^verbatim>\<open>ioutil.TempFile\<close> or the name of the file it created; \<open>sys_Write\<close> and
  \<open>sys_Flush\<close> say, for a file and the bytes handed to its writer so far, whether
  the write fails, and then how many of these bytes reached the file and with which
  error; \<open>sys_Open\<close> and \<open>sys_Stat\<close> give the error of \<^verbatim>\<open>os.Open\<close> and \<^verbatim>\<open>os.Stat\<close>;
  \<open>sys_Remove\<close> gives the error of \<^verbatim>\<open>os.Remove\<close> on a path that exists (a missing
  permission, a read-only file system, a directory that is not empty);
  \<open>sys_Run\<close> runs a command with its arguments and environment and gives its
  result and the files it leaves.
\<close>

record sys =
  sys_TempFile :: "(string \<rightharpoonup> string) \<Rightarrow> string + string"
  sys_Write :: "(string \<rightharpoonup> string) \<Rightarrow> string \<Rightarrow> string \<Rightarrow> (nat \<times> string) option"
  sys_Flush :: "(string \<rightharpoonup> string) \<Rightarrow> string \<Rightarrow> string \<Rightarrow> (nat \<times> string) option"
  sys_Open :: "(string \<rightharpoonup> string) \<Rightarrow> string \<Rightarrow> string option"
  sys_Stat :: "(string \<rightharpoonup> string) \<Rightarrow> string \<Rightarrow> string option"
  sys_Remove :: "(string \<rightharpoonup> string) \<Rightarrow> string \<Rightarrow> string option"
  sys_Run :: "(string \<rightharpoonup> string) \<Rightarrow> string \<Rightarrow> string list \<Rightarrow> string list
                \<Rightarrow> cmd_result \<times> (string \<rightharpoonup> string)"

text \<open>\<^verbatim>\<open>os.Remove\<close>: removing what is not there is an error; removing what is there
  fails when the system says so, and then the files stay as they are; otherwise the
  path is gone afterwards. The call and its result are added to the history.\<close>

definition os_Remove :: "sys \<Rightarrow> string \<Rightarrow> world \<Rightarrow> string option \<times> world" where
  "os_Remove sy name w =
     (let res = (if files w name = None
                 then Some (''remove '' @ name @ '': no such file or directory'')
                 else sys_Remove sy (files w) name);
          w' = w\<lparr>removes := removes w @ [(name, res)]\<rparr>
      in case res of
           Some e \<Rightarrow> (Some e, w')
         | None \<Rightarrow> (None, w'\<lparr>files := (files w)(name := None)\<rparr>))"

text \<open>
  \<^verbatim>\<open>bufio.Writer\<close>: the bytes accepted so far, and the error of the writer. The
  error is sticky: after a failed write every later \<^verbatim>\<open>WriteString\<close> and \<^verbatim>\<open>Flush\<close>
  returns it and accepts nothing. A successful \<^verbatim>\<open>Flush\<close> leaves all accepted bytes
  in the file; a failure leaves a prefix of them there.
\<close>

record Writer =
  wr_file :: string
  wr_data :: string
  wr_err :: "string option"

definition NewWriter :: "string \<Rightarrow> Writer" where
  "NewWriter tf = \<lparr>wr_file = tf, wr_data = [], wr_err = None\<rparr>"

definition WriteString :: "sys \<Rightarrow> string \<Rightarrow> Writer \<times> world \<Rightarrow> string option \<times> Writer \<times> world" where
  "WriteString sy s st =
     (case st of (b, w) \<Rightarrow>
        (case wr_err b of
           Some e \<Rightarrow> (Some e, b, w)
         | None \<Rightarrow>
            (case sys_Write sy (files w) (wr_file b) (wr_data b @ s) of
               Some (n, e) \<Rightarrow>
                 (Some e, b\<lparr>wr_err := Some e\<rparr>,
                  w\<lparr>files := (files w)(wr_file b \<mapsto> take n (wr_data b @ s))\<rparr>)
             | None \<Rightarrow> (None, b\<lparr>wr_data := wr_data b @ s\<rparr>, w))))"

definition Flush :: "sys \<Rightarrow> Writer \<times> world \<Rightarrow> string option \<times> Writer \<times> world" where
  "Flush sy st =
     (case st of (b, w) \<Rightarrow>
        (case wr_err b of
           Some e \<Rightarrow> (Some e, b, w)
         | None \<Rightarrow>
            (case sys_Flush sy (files w) (wr_file b) (wr_data b) of
               Some (n, e) \<Rightarrow>
                 (Some e, b\<lparr>wr_err := Some e\<rparr>,
                  w\<lparr>files := (files w)(wr_file b \<mapsto> take n (wr_data b))\<rparr>)
             | None \<Rightarrow> (None, b, w\<lparr>files := (files w)(wr_file b \<mapsto> wr_data b)\<rparr>))))"

subsection \<open>PostProcess\<close>

text \<open>The three results of \<^verbatim>\<open>PostProcess\<close>: the artifact (\<^verbatim>\<open>nil\<close> is \<open>None\<close>), the
  keep flag and the error.\<close>

type_synonym pp_result = "Artifact option \<times> bool \<times> string option"

text \<open>The loop \<^verbatim>\<open>for _, command := range p.config.Inline\<close> (lines 176 to 180): it
  leaves at the first \<^verbatim>\<open>WriteString\<close> that returns an error.\<close>

fun write_commands :: "sys \<Rightarrow> string list \<Rightarrow> Writer \<times> world \<Rightarrow> string option \<times> Writer \<times> world" where
  "write_commands sy [] st = (None, st)"
| "write_commands sy (command # rest) st =
     (case WriteString sy (command @ [CHR 0x0A]) st of
        (Some e, st') \<Rightarrow> (Some e, st')
      | (None, st') \<Rightarrow> write_commands sy rest st')"

text \<open>Lines 174 to 186, after the temporary file \<open>tf\<close> exists: the shebang line (the
  result of this first \<^verbatim>\<open>WriteString\<close> is dropped), the commands, the flush.
  \<^verbatim>\<open>tf.Close()\<close> changes nothing that is modelled.\<close>

definition write_inline :: "sys \<Rightarrow> Config \<Rightarrow> string list \<Rightarrow> string \<Rightarrow> world \<Rightarrow> string option \<times> world" where
  "write_inline sy c commands tf w =
     (case WriteString sy (''#!'' @ InlineShebang c @ [CHR 0x0A]) (NewWriter tf, w) of
        (_, st1) \<Rightarrow>
          (case write_commands sy commands st1 of
             (Some e, b, w2) \<Rightarrow> (Some (''Error preparing shell script: '' @ e), w2)
           | (None, st2) \<Rightarrow>
               (case Flush sy st2 of
                  (Some e, b, w3) \<Rightarrow> (Some (''Error preparing shell script: '' @ e), w3)
                | (None, b, w3) \<Rightarrow> (None, w3))))"

text \<open>The body of the inner loop \<^verbatim>\<open>for _, path := range scripts\<close> (lines 199 to 222)
  for one file \<open>art\<close>, as a recursion over the scripts left; \<open>Some\<close> is the error the
  function returns with.\<close>

fun run_scripts :: "sys \<Rightarrow> string list \<Rightarrow> string \<Rightarrow> string list \<Rightarrow> world \<Rightarrow> string option \<times> world" where
  "run_scripts sy envVars art [] w = (None, w)"
| "run_scripts sy envVars art (path # rest) w =
     (let w1 = w\<lparr>ui_out := ui_out w @ [Say (''Process with shell script: '' @ path)]\<rparr>
      in case sys_Open sy (files w1) path of
           Some e \<Rightarrow> (Some (''Error opening shell script: '' @ e), w1)
         | None \<Rightarrow>
            (let w2 = w1\<lparr>ui_out := ui_out w1 @ [Message (''Executing script with artifact: '' @ art)]\<rparr>;
                 args = [path, art];
                 ran = sys_Run sy (files w2) ''/bin/sh'' args envVars;
                 res = fst ran;
                 w3 = w2\<lparr>files := snd ran,
                         execs := execs w2 @ [\<lparr>ex_name = ''/bin/sh'', ex_args = args,
                                               ex_env = envVars, ex_result = res\<rparr>],
                         ui_out := ui_out w2 @ [Message (run_stdout res)]\<rparr>
             in case run_err res of
                  Some e \<Rightarrow> (Some (''Unable to execute script: '' @ run_stderr res), w3)
                | None \<Rightarrow> run_scripts sy envVars art rest w3))"

text \<open>The outer loop \<^verbatim>\<open>for _, art := range files\<close> (lines 198 to 223).\<close>

fun run_files :: "sys \<Rightarrow> string list \<Rightarrow> string list \<Rightarrow> string list \<Rightarrow> world \<Rightarrow> string option \<times> world" where
  "run_files sy envVars scripts [] w = (None, w)"
| "run_files sy envVars scripts (art # rest) w =
     (case run_scripts sy envVars art scripts w of
        (Some e, w') \<Rightarrow> (Some e, w')
      | (None, w') \<Rightarrow> run_files sy envVars scripts rest w')"

text \<open>Lines 189 to 224: the environment, the two loops and the outgoing artifact.
  \<open>name\<close> and \<open>outputPath\<close> are identifiers that \<^verbatim>\<open>PostProcess\<close> uses in its last
  line and that the source declares nowhere; they are parameters here. The lines that
  \<^verbatim>\<open>fmt.Printf\<close> and \<^verbatim>\<open>log.Printf\<close> write to the output of the plugin itself are
  left out, and so is the deferred \<^verbatim>\<open>f.Close()\<close> of the scripts opened.\<close>

definition execute :: "sys \<Rightarrow> string \<Rightarrow> string \<Rightarrow> Config \<Rightarrow> bool \<Rightarrow> string list \<Rightarrow> packer_Artifact
    \<Rightarrow> world \<Rightarrow> pp_result \<times> world" where
  "execute sy name outputPath c keep scripts artifact w =
     (let envVars = [''PACKER_BUILD_NAME='' @ PackerBuildName c,
                     ''PACKER_BUILDER_TYPE='' @ PackerBuilderType c] @ elems (Vars c)
      in case run_files sy envVars scripts (pa_Files artifact) w of
           (Some e, w') \<Rightarrow> ((None, keep, Some e), w')
         | (None, w') \<Rightarrow>
             ((Some (NewArtifact name (pa_BuilderId artifact) outputPath), keep, None), w'))"

text \<open>\<^verbatim>\<open>PostProcess\<close>. The call \<^verbatim>\<open>defer os.Remove(tf.Name())\<close> is made once the
  temporary file exists, so the removal runs last on every return after that point;
  its result is dropped.\<close>

definition PostProcess :: "sys \<Rightarrow> string \<Rightarrow> string \<Rightarrow> Config \<Rightarrow> packer_Artifact \<Rightarrow> world
    \<Rightarrow> pp_result \<times> world" where
  "PostProcess sy name outputPath c artifact w =
     (let keep = KeepInputArtifact c;
          scripts = elems (Scripts c)
      in case Inline c of
           None \<Rightarrow> execute sy name outputPath c keep scripts artifact w
         | Some commands \<Rightarrow>
            (case sys_TempFile sy (files w) of
               Inl e \<Rightarrow> ((None, keep, Some (''Error preparing shell script: '' @ e)), w)
             | Inr tf \<Rightarrow>
                (let w1 = w\<lparr>files := (files w)(tf \<mapsto> [])\<rparr>;
                     scripts' = scripts @ [tf];
                     r = (case write_inline sy c commands tf w1 of
                            (Some e, w2) \<Rightarrow> ((None, keep, Some e), w2)
                          | (None, w2) \<Rightarrow> execute sy name outputPath c keep scripts' artifact w2)
                 in (fst r, snd (os_Remove sy tf (snd r))))))"

text \<open>\<^verbatim>\<open>func (a *Artifact) Destroy() error\<close>.\<close>

definition Destroy :: "sys \<Rightarrow> Artifact \<Rightarrow> world \<Rightarrow> string option \<times> world" where
  "Destroy sy a w = os_Remove sy (Path a) w"

subsection \<open>Configure\<close>

text \<open>
  \<^verbatim>\<open>interpolate.Render\<close> gives a string and an error, \<^verbatim>\<open>interpolate.Validate\<close> an
  error; both belong to packer and are parameters.
\<close>

record tmpl =
  Render :: "string \<Rightarrow> string \<times> string option"
  Validate :: "string \<Rightarrow> string option"

text \<open>\<^verbatim>\<open>Configure\<close> returns the error of \<^verbatim>\<open>config.Decode\<close> as it is, or the
  \<^verbatim>\<open>*packer.MultiError\<close> it collected, whose \<^verbatim>\<open>Errors\<close> are the messages in the
  order of the appends.\<close>

datatype config_error = DecodeError string | MultiError "string list"

text \<open>\<^verbatim>\<open>packer.MultiErrorAppend(errs, e)\<close> on a \<^verbatim>\<open>*MultiError\<close> and one plain error:
  the error is appended to \<^verbatim>\<open>errs.Errors\<close>.\<close>

definition MultiErrorAppend :: "string list \<Rightarrow> string \<Rightarrow> string list" where
  "MultiErrorAppend errs e = errs @ [e]"

text \<open>The verb \<^verbatim>\<open>%d\<close> of \<^verbatim>\<open>fmt\<close> on an index.\<close>

fun decimal :: "nat \<Rightarrow> string" where
  "decimal n =
     (if n < 10 then [char_of (48 + n)]
      else decimal (n div 10) @ [char_of (48 + n mod 10)])"

text \<open>\<^verbatim>\<open>strings.SplitN(s, sep, 2)\<close> for a separator of one byte: the text before the
  first separator and the text after it, or \<open>s\<close> alone when it has none.\<close>

definition SplitN2 :: "string \<Rightarrow> char \<Rightarrow> string list" where
  "SplitN2 s sep =
     (if sep \<in> set s
      then [takeWhile (\<lambda>x. x \<noteq> sep) s, tl (dropWhile (\<lambda>x. x \<noteq> sep) s)]
      else [s])"

definition squote :: string where
  "squote = [CHR 0x27]"

text \<open>
  The loop over the map \<^verbatim>\<open>templates\<close> (lines 102 to 108). Go visits the keys of a
  map once each in an order it does not fix; the order is the list of keys given.
  The map holds pointers to the two fields, so each rendered value is stored in
  the configuration.
\<close>

fun render_templates :: "tmpl \<Rightarrow> string list \<Rightarrow> Config \<times> string list \<Rightarrow> Config \<times> string list" where
  "render_templates tm [] st = st"
| "render_templates tm (n # ns) (c, errs) =
     (if n = ''inline_shebang'' then
        (let r = Render tm (InlineShebang c)
         in render_templates tm ns
              (c\<lparr>InlineShebang := fst r\<rparr>,
               case snd r of
                 Some e \<Rightarrow> MultiErrorAppend errs (''Error processing '' @ n @ '': '' @ e)
               | None \<Rightarrow> errs))
      else if n = ''script'' then
        (let r = Render tm (Script c)
         in render_templates tm ns
              (c\<lparr>Script := fst r\<rparr>,
               case snd r of
                 Some e \<Rightarrow> MultiErrorAppend errs (''Error processing '' @ n @ '': '' @ e)
               | None \<Rightarrow> errs))
      else render_templates tm ns (c, errs))"

text \<open>The inner loop \<^verbatim>\<open>for i, elem := range slice\<close> (lines 117 to 124) from index
  \<open>i\<close> on: the rendered elements, which the loop stores in the slice, and the errors.\<close>

fun render_elems :: "tmpl \<Rightarrow> string \<Rightarrow> nat \<Rightarrow> string list \<Rightarrow> string list \<Rightarrow> string list \<times> string list" where
  "render_elems tm n i [] errs = ([], errs)"
| "render_elems tm n i (elem # rest) errs =
     (let r = Render tm elem;
          errs' = (case snd r of
                     Some e \<Rightarrow> MultiErrorAppend errs
                        (''Error processing '' @ n @ ''['' @ decimal i @ '']: '' @ e)
                   | None \<Rightarrow> errs);
          rs = render_elems tm n (Suc i) rest errs'
      in (fst r # fst rs, snd rs))"

definition render_slice :: "tmpl \<Rightarrow> string \<Rightarrow> slice \<Rightarrow> string list \<Rightarrow> slice \<times> string list" where
  "render_slice tm n s errs =
     (case s of
        None \<Rightarrow> (None, errs)
      | Some xs \<Rightarrow> (let rs = render_elems tm n 0 xs errs in (Some (fst rs), snd rs)))"

text \<open>The loop over the map \<^verbatim>\<open>sliceTemplates\<close> (lines 116 to 125), in the order of
  keys given. The slices of the map share their elements with the fields of the
  configuration, so the assignment \<^verbatim>\<open>slice[i] = ...\<close> changes the field.\<close>

fun render_slices :: "tmpl \<Rightarrow> string list \<Rightarrow> Config \<times> string list \<Rightarrow> Config \<times> string list" where
  "render_slices tm [] st = st"
| "render_slices tm (n # ns) (c, errs) =
     (if n = ''inline'' then
        (let r = render_slice tm n (Inline c) errs
         in render_slices tm ns (c\<lparr>Inline := fst r\<rparr>, snd r))
      else if n = ''scripts'' then
        (let r = render_slice tm n (Scripts c) errs
         in render_slices tm ns (c\<lparr>Scripts := fst r\<rparr>, snd r))
      else if n = ''environment_vars'' then
        (let r = render_slice tm n (Vars c) errs
         in render_slices tm ns (c\<lparr>Vars := fst r\<rparr>, snd r))
      else render_slices tm ns (c, errs))"

text \<open>The loop over the scripts with \<^verbatim>\<open>os.Stat\<close> (lines 135 to 140).\<close>

fun stat_scripts :: "sys \<Rightarrow> (string \<rightharpoonup> string) \<Rightarrow> string list \<Rightarrow> string list \<Rightarrow> string list" where
  "stat_scripts sy fs [] errs = errs"
| "stat_scripts sy fs (path # rest) errs =
     stat_scripts sy fs rest
       (case sys_Stat sy fs path of
          Some e \<Rightarrow> MultiErrorAppend errs (''Bad script '' @ squote @ path @ squote @ '': '' @ e)
        | None \<Rightarrow> errs)"

text \<open>The loop over the environment variables (lines 143 to 149).\<close>

fun check_vars :: "string list \<Rightarrow> string list \<Rightarrow> string list" where
  "check_vars [] errs = errs"
| "check_vars (kv # rest) errs =
     check_vars rest
       (let vs = SplitN2 kv (CHR ''='')
        in if length vs \<noteq> 2 \<or> vs ! 0 = [] then
             MultiErrorAppend errs
               (''Environment variable not in format '' @ squote @ ''key=value'' @ squote
                  @ '': '' @ kv)
           else errs)"

text \<open>
  \<^verbatim>\<open>Configure\<close>, from the configuration and the error that \<^verbatim>\<open>config.Decode\<close> left
  (\<open>decoded\<close>); \<open>torder\<close> and \<open>sorder\<close> are the orders in which the two maps are
  visited and \<open>fs\<close> the files on disk. The result is the error returned and the
  configuration the post-processor holds afterwards.
\<close>

definition Configure :: "sys \<Rightarrow> tmpl \<Rightarrow> string list \<Rightarrow> string list \<Rightarrow> (string \<rightharpoonup> string)
    \<Rightarrow> Config \<times> string option \<Rightarrow> config_error option \<times> Config" where
  "Configure sy tm torder sorder fs decoded =
     (case decoded of
        (c0, Some err) \<Rightarrow> (Some (DecodeError err), c0)
      | (c0, None) \<Rightarrow>
         (let errs0 = [];
              c1 = (if InlineShebang c0 = [] then c0\<lparr>InlineShebang := ''/bin/sh''\<rparr> else c0);
              c2 = (if Scripts c1 = None then c1\<lparr>Scripts := Some []\<rparr> else c1);
              c3 = (if Vars c2 = None then c2\<lparr>Vars := Some []\<rparr> else c2);
              errs1 = (if Script c3 \<noteq> [] \<and> len (Scripts c3) > 0
                       then MultiErrorAppend errs0
                              ''Only one of script or scripts can be specified.''
                       else errs0);
              c4 = (if Script c3 \<noteq> [] then c3\<lparr>Scripts := Some [Script c3]\<rparr> else c3);
              errs2 = (case Validate tm (TargetPath c4) of
                         Some e \<Rightarrow> MultiErrorAppend errs1
                                     (''Error parsing target template: '' @ e)
                       | None \<Rightarrow> errs1);
              st5 = render_templates tm torder (c4, errs2);
              st6 = render_slices tm sorder st5;
              c6 = fst st6;
              errs6 = snd st6;
              errs7 = (if len (Scripts c6) = 0 \<and> Inline c6 = None
                       then MultiErrorAppend errs6
                              ''Either a script file or inline script must be specified.''
                       else if len (Scripts c6) > 0 \<and> Inline c6 \<noteq> None
                       then MultiErrorAppend errs6
                              ''Only a script file or an inline script can be specified, not both.''
                       else errs6);
              errs8 = stat_scripts sy fs (elems (Scripts c6)) errs7;
              errs9 = check_vars (elems (Vars c6)) errs8
          in if length errs9 > 0 then (Some (MultiError errs9), c6) else (None, c6)))"

subsection \<open>Notions used in the statements\<close>


text \<open>A run failed when \<^verbatim>\<open>cmd.Run()\<close> returned an error.\<close>

definition failed :: "exec_event \<Rightarrow> bool" where
  "failed ev = (run_err (ex_result ev) \<noteq> None)"

text \<open>A history of runs together with the error of the loops: no run failed, or the
  run that failed is the last one and its standard error is the text of the error.\<close>

definition stops_at_failure :: "exec_event list \<Rightarrow> string option \<Rightarrow> bool" where
  "stops_at_failure tr r =
     (list_all (\<lambda>ev. \<not> failed ev) tr \<or>
      (tr \<noteq> [] \<and> list_all (\<lambda>ev. \<not> failed ev) (butlast tr) \<and> failed (last tr) \<and>
       r = Some (''Unable to execute script: '' @ run_stderr (ex_result (last tr)))))"

text \<open>The slice \<^verbatim>\<open>scripts\<close> as it stands when the loops start (line 198): the
  configured scripts, and after them the temporary file when inline commands are
  configured and the file could be created.\<close>

definition resolved_scripts :: "sys \<Rightarrow> Config \<Rightarrow> world \<Rightarrow> string list" where
  "resolved_scripts sy c w =
     elems (Scripts c) @
       (case Inline c of
          None \<Rightarrow> []
        | Some commands \<Rightarrow> (case sys_TempFile sy (files w) of Inl e \<Rightarrow> [] | Inr tf \<Rightarrow> [tf]))"

text \<open>The messages of the error \<^verbatim>\<open>Configure\<close> returned: none for \<^verbatim>\<open>nil\<close>.\<close>

definition errors_of :: "config_error option \<Rightarrow> string list" where
  "errors_of r = (case r of None \<Rightarrow> [] | Some (DecodeError e) \<Rightarrow> [e] | Some (MultiError es) \<Rightarrow> es)"

text \<open>The errors of the two rendering loops start with \<^verbatim>\<open>Error processing \<close>.\<close>

definition processing_error :: "string \<Rightarrow> bool" where
  "processing_error x = (take 17 x = ''Error processing '')"

text \<open>The condition of line 145, \<^verbatim>\<open>len(vs) != 2 || vs[0] == ""\<close>, on the parts of an
  environment entry.\<close>

definition malformed :: "string \<Rightarrow> bool" where
  "malformed kv = (length (SplitN2 kv (CHR ''='')) \<noteq> 2 \<or> SplitN2 kv (CHR ''='') ! 0 = [])"

text \<open>The errors that the checks of lines 83 to 95, 127 to 133, 135 to 140 and 143 to
  149 append, in the order of the appends.\<close>

definition early_errors :: "tmpl \<Rightarrow> Config \<Rightarrow> string list" where
  "early_errors tm c =
     (if Script c \<noteq> [] \<and> len (Scripts c) > 0
      then [''Only one of script or scripts can be specified.''] else []) @
     (case Validate tm (TargetPath c) of
        Some e \<Rightarrow> [''Error parsing target template: '' @ e]
      | None \<Rightarrow> [])"

definition presence_errors :: "Config \<Rightarrow> string list" where
  "presence_errors c =
     (if len (Scripts c) = 0 \<and> Inline c = None
      then [''Either a script file or inline script must be specified.'']
      else if len (Scripts c) > 0 \<and> Inline c \<noteq> None
      then [''Only a script file or an inline script can be specified, not both.'']
      else [])"

definition stat_errors :: "sys \<Rightarrow> (string \<rightharpoonup> string) \<Rightarrow> string list \<Rightarrow> string list" where
  "stat_errors sy fs paths =
     concat (map (\<lambda>path. case sys_Stat sy fs path of
                            Some e \<Rightarrow> [''Bad script '' @ squote @ path @ squote @ '': '' @ e]
                          | None \<Rightarrow> []) paths)"

definition var_errors :: "string list \<Rightarrow> string list" where
  "var_errors kvs =
     concat (map (\<lambda>kv. if malformed kv
                        then [''Environment variable not in format '' @ squote @ ''key=value''
                                @ squote @ '': '' @ kv]
                        else []) kvs)"

subsection \<open>Concrete inputs\<close>

definition ok_result :: cmd_result where
  "ok_result = \<lparr>run_err = None, run_stdout = ''done'', run_stderr = []\<rparr>"

definition boom_result :: cmd_result where
  "boom_result = \<lparr>run_err = Some ''exit status 1'', run_stdout = [], run_stderr = ''boom''\<rparr>"

text \<open>An operating system on which everything succeeds, and one on which every script
  exits with status 1 after writing \<^verbatim>\<open>boom\<close> to its standard error.\<close>

definition sys_ok :: sys where
  "sys_ok = \<lparr>sys_TempFile = (\<lambda>fs. Inr ''/tmp/packer-shell1''),
             sys_Write = (\<lambda>fs f d. None),
             sys_Flush = (\<lambda>fs f d. None),
             sys_Open = (\<lambda>fs p. None),
             sys_Stat = (\<lambda>fs p. None),
             sys_Remove = (\<lambda>fs p. None),
             sys_Run = (\<lambda>fs n args env. (ok_result, fs))\<rparr>"

definition sys_boom :: sys where
  "sys_boom = sys_ok\<lparr>sys_Run := (\<lambda>fs n args env. (boom_result, fs))\<rparr>"


definition sys_notemp :: sys where
  "sys_notemp = sys_ok\<lparr>sys_TempFile := (\<lambda>fs. Inl ''no space left on device'')\<rparr>"

definition cfg_scripts :: Config where
  "cfg_scripts = \<lparr>PackerBuildName = ''vbox'', PackerBuilderType = ''virtualbox-iso'',
     Inline = None, InlineShebang = ''/bin/sh'', Script = [], Vars = Some [],
     Scripts = Some [''/tmp/s1.sh'', ''/tmp/s2.sh''], TargetPath = [],
     KeepInputArtifact = True\<rparr>"

definition cfg_inline :: Config where
  "cfg_inline = cfg_scripts\<lparr>Inline := Some [''echo a'', ''echo b''], Scripts := Some []\<rparr>"

definition art_one :: packer_Artifact where
  "art_one = \<lparr>pa_BuilderId = ''mitchellh.virtualbox'', pa_Files = [''/tmp/x.box''],
     pa_Id = ''x'', pa_String = ''x''\<rparr>"

definition art_two :: packer_Artifact where
  "art_two = art_one\<lparr>pa_Files := [''/tmp/a.box'', ''/tmp/b.box'']\<rparr>"

definition world0 :: world where
  "world0 = \<lparr>files = Map.empty, execs = [], removes = [], ui_out = []\<rparr>"

definition boom_event :: exec_event where
  "boom_event = \<lparr>ex_name = ''/bin/sh'', ex_args = [''/tmp/s1.sh'', ''/tmp/a.box''],
     ex_env = [''PACKER_BUILD_NAME=vbox'', ''PACKER_BUILDER_TYPE=virtualbox-iso''],
     ex_result = boom_result\<rparr>"

text \<open>Templates that render to themselves, an order of the keys of each map, and
  decoded configurations: one with nothing set, one with \<^verbatim>\<open>script\<close>, \<^verbatim>\<open>scripts\<close> and a
  malformed environment entry, one with an inline list of no element.\<close>

definition tm_plain :: tmpl where
  "tm_plain = \<lparr>Render = (\<lambda>s. (s, None)), Validate = (\<lambda>s. None)\<rparr>"

definition torder0 :: "string list" where
  "torder0 = [''inline_shebang'', ''script'']"

definition sorder0 :: "string list" where
  "sorder0 = [''inline'', ''scripts'', ''environment_vars'']"

definition cfg_raw :: Config where
  "cfg_raw = \<lparr>PackerBuildName = ''vbox'', PackerBuilderType = ''virtualbox-iso'',
     Inline = None, InlineShebang = [], Script = [], Vars = None,
     Scripts = None, TargetPath = [], KeepInputArtifact = False\<rparr>"

definition cfg_bad :: Config where
  "cfg_bad = cfg_raw\<lparr>Script := ''/tmp/s1.sh'', Scripts := Some [''/tmp/s2.sh''],
                     Vars := Some [''foobar'']\<rparr>"


text \<open>Templates that reject the text \<^verbatim>\<open>echo {{\<close> and render every other text to itself,
  and the configuration with \<^verbatim>\<open>script\<close>, \<^verbatim>\<open>scripts\<close> and the malformed environment
  entry that has this text as its one inline command.\<close>

definition tm_strict :: tmpl where
  "tm_strict = \<lparr>Render = (\<lambda>s. if s = ''echo {{'' then ([], Some ''unclosed action'') else (s, None)),
                Validate = (\<lambda>s. None)\<rparr>"

definition cfg_worse :: Config where
  "cfg_worse = cfg_bad\<lparr>Inline := Some [''echo {{'']\<rparr>"

section \<open>Properties\<close>

subsection \<open>The writer and the inline script\<close>


lemma WriteString_sticky:
  "wr_err b = Some e \<Longrightarrow> WriteString sy s (b, w) = (Some e, b, w)"
  by (simp add: WriteString_def)




lemma WriteString_execs: "execs (snd (snd (WriteString sy s (b, w)))) = execs w"
  by (simp add: WriteString_def split: option.splits prod.splits)

lemma write_commands_execs: "execs (snd (snd (write_commands sy commands (b, w)))) = execs w"
proof (induction commands arbitrary: b w)
  case Nil
  then show ?case by simp
next
  case (Cons command rest)
  obtain r1 b1 w1 where ws: "WriteString sy (command @ [CHR 0x0A]) (b, w) = (r1, b1, w1)"
    by (metis prod_cases3)
  with WriteString_execs [of sy "command @ [CHR 0x0A]" b w] have "execs w1 = execs w" by simp
  with ws Cons.IH [of b1 w1] show ?case by (cases r1) simp_all
qed

lemma Flush_execs: "execs (snd (snd (Flush sy (b, w)))) = execs w"
  by (simp add: Flush_def split: option.splits prod.splits)

lemma write_inline_execs: "execs (snd (write_inline sy c commands tf w)) = execs w"
proof -
  obtain r1 b1 w1 where
    s1: "WriteString sy (''#!'' @ InlineShebang c @ [CHR 0x0A]) (NewWriter tf, w) = (r1, b1, w1)"
    by (metis prod_cases3)
  obtain r2 b2 w2 where s2: "write_commands sy commands (b1, w1) = (r2, b2, w2)"
    by (metis prod_cases3)
  obtain r3 b3 w3 where s3: "Flush sy (b2, w2) = (r3, b3, w3)"
    by (metis prod_cases3)
  have e1: "execs w1 = execs w"
    using WriteString_execs [of sy "''#!'' @ InlineShebang c @ [CHR 0x0A]" "NewWriter tf" w] s1
    by simp
  have e2: "execs w2 = execs w1" using write_commands_execs [of sy commands b1 w1] s2 by simp
  have e3: "execs w3 = execs w2" using Flush_execs [of sy b2 w2] s3 by simp
  show ?thesis using s1 s2 s3 e1 e2 e3
    by (simp add: write_inline_def split: option.splits)
qed

lemma os_Remove_execs: "execs (snd (os_Remove sy name w)) = execs w"
  by (simp add: os_Remove_def Let_def split: option.splits)

subsection \<open>The history of removals\<close>










subsection \<open>The history of runs\<close>

lemma run_scripts_ok:
  "run_scripts sy envVars art scripts w = (None, w') \<Longrightarrow>
     \<exists>tr. execs w' = execs w @ tr \<and> map ex_args tr = map (\<lambda>path. [path, art]) scripts \<and>
          (\<forall>ev \<in> set tr. \<not> failed ev \<and> ex_name ev = ''/bin/sh'' \<and> ex_env ev = envVars)"
proof (induction scripts arbitrary: w)
  case Nil
  then show ?case by simp
next
  case (Cons path rest)
  let ?w1 = "w\<lparr>ui_out := ui_out w @ [Say (''Process with shell script: '' @ path)]\<rparr>"
  let ?w2 = "?w1\<lparr>ui_out := ui_out ?w1 @ [Message (''Executing script with artifact: '' @ art)]\<rparr>"
  let ?ran = "sys_Run sy (files ?w2) ''/bin/sh'' [path, art] envVars"
  let ?ev = "\<lparr>ex_name = ''/bin/sh'', ex_args = [path, art], ex_env = envVars, ex_result = fst ?ran\<rparr>"
  let ?w3 = "?w2\<lparr>files := snd ?ran, execs := execs ?w2 @ [?ev],
                  ui_out := ui_out ?w2 @ [Message (run_stdout (fst ?ran))]\<rparr>"
  from Cons.prems have ok: "run_err (fst ?ran) = None"
    and rest: "run_scripts sy envVars art rest ?w3 = (None, w')"
    by (auto simp: Let_def split: option.splits)
  from Cons.IH [OF rest] obtain tr where
    tr: "execs w' = execs ?w3 @ tr" "map ex_args tr = map (\<lambda>path. [path, art]) rest"
      "\<forall>ev \<in> set tr. \<not> failed ev \<and> ex_name ev = ''/bin/sh'' \<and> ex_env ev = envVars"
    by blast
  have "execs w' = execs w @ (?ev # tr)" using tr(1) by simp
  moreover have "map ex_args (?ev # tr) = map (\<lambda>path. [path, art]) (path # rest)"
    using tr(2) by simp
  moreover have "\<forall>ev \<in> set (?ev # tr). \<not> failed ev \<and> ex_name ev = ''/bin/sh'' \<and> ex_env ev = envVars"
    using tr(3) ok by (simp add: failed_def)
  ultimately show ?case by blast
qed

lemma run_files_ok:
  "run_files sy envVars scripts arts w = (None, w') \<Longrightarrow>
     \<exists>tr. execs w' = execs w @ tr \<and>
          map ex_args tr = concat (map (\<lambda>art. map (\<lambda>path. [path, art]) scripts) arts) \<and>
          (\<forall>ev \<in> set tr. \<not> failed ev \<and> ex_name ev = ''/bin/sh'' \<and> ex_env ev = envVars)"
proof (induction arts arbitrary: w)
  case Nil
  then show ?case by simp
next
  case (Cons art rest)
  from Cons.prems obtain w1 where
    one: "run_scripts sy envVars art scripts w = (None, w1)"
    and more: "run_files sy envVars scripts rest w1 = (None, w')"
    by (auto split: prod.splits option.splits)
  from run_scripts_ok [OF one] obtain tr1 where
    tr1: "execs w1 = execs w @ tr1" "map ex_args tr1 = map (\<lambda>path. [path, art]) scripts"
      "\<forall>ev \<in> set tr1. \<not> failed ev \<and> ex_name ev = ''/bin/sh'' \<and> ex_env ev = envVars"
    by blast
  from Cons.IH [OF more] obtain tr2 where
    tr2: "execs w' = execs w1 @ tr2"
      "map ex_args tr2 = concat (map (\<lambda>art. map (\<lambda>path. [path, art]) scripts) rest)"
      "\<forall>ev \<in> set tr2. \<not> failed ev \<and> ex_name ev = ''/bin/sh'' \<and> ex_env ev = envVars"
    by blast
  have "execs w' = execs w @ (tr1 @ tr2)" using tr1(1) tr2(1) by simp
  moreover have "map ex_args (tr1 @ tr2) =
      concat (map (\<lambda>art. map (\<lambda>path. [path, art]) scripts) (art # rest))"
    using tr1(2) tr2(2) by simp
  moreover have "\<forall>ev \<in> set (tr1 @ tr2). \<not> failed ev \<and> ex_name ev = ''/bin/sh'' \<and> ex_env ev = envVars"
    using tr1(3) tr2(3) by auto
  ultimately show ?case by blast
qed

lemma stops_at_failure_Cons:
  "\<not> failed ev \<Longrightarrow> stops_at_failure tr r \<Longrightarrow> stops_at_failure (ev # tr) r"
  by (auto simp: stops_at_failure_def)

lemma stops_at_failure_append:
  "list_all (\<lambda>ev. \<not> failed ev) tr1 \<Longrightarrow> stops_at_failure tr2 r \<Longrightarrow> stops_at_failure (tr1 @ tr2) r"
  by (induction tr1) (auto simp: stops_at_failure_Cons)

lemma run_scripts_stops:
  "run_scripts sy envVars art scripts w = (r, w') \<Longrightarrow>
     \<exists>tr. execs w' = execs w @ tr \<and> stops_at_failure tr r"
proof (induction scripts arbitrary: w)
  case Nil
  then show ?case by (simp add: stops_at_failure_def)
next
  case (Cons path rest)
  let ?w1 = "w\<lparr>ui_out := ui_out w @ [Say (''Process with shell script: '' @ path)]\<rparr>"
  let ?w2 = "?w1\<lparr>ui_out := ui_out ?w1 @ [Message (''Executing script with artifact: '' @ art)]\<rparr>"
  let ?ran = "sys_Run sy (files ?w2) ''/bin/sh'' [path, art] envVars"
  let ?ev = "\<lparr>ex_name = ''/bin/sh'', ex_args = [path, art], ex_env = envVars, ex_result = fst ?ran\<rparr>"
  let ?w3 = "?w2\<lparr>files := snd ?ran, execs := execs ?w2 @ [?ev],
                  ui_out := ui_out ?w2 @ [Message (run_stdout (fst ?ran))]\<rparr>"
  show ?case
  proof (cases "sys_Open sy (files ?w1) path")
    case (Some e)
    with Cons.prems have "w' = ?w1" by (simp add: Let_def)
    then have "execs w' = execs w @ []" by simp
    moreover have "stops_at_failure [] r" by (simp add: stops_at_failure_def)
    ultimately show ?thesis by blast
  next
    case None
    note opened = None
    show ?thesis
    proof (cases "run_err (fst ?ran)")
      case (Some e)
      with opened Cons.prems have
        "w' = ?w3" "r = Some (''Unable to execute script: '' @ run_stderr (fst ?ran))"
        by (simp_all add: Let_def)
      then have "execs w' = execs w @ [?ev]" by simp
      moreover have "stops_at_failure [?ev] r"
        using Some \<open>r = _\<close> by (simp add: stops_at_failure_def failed_def)
      ultimately show ?thesis by blast
    next
      case None
      with opened Cons.prems have "run_scripts sy envVars art rest ?w3 = (r, w')"
        by (simp add: Let_def)
      from Cons.IH [OF this] obtain tr where
        tr: "execs w' = execs ?w3 @ tr" "stops_at_failure tr r" by blast
      have "execs w' = execs w @ (?ev # tr)" using tr(1) by simp
      moreover have "stops_at_failure (?ev # tr) r"
        using tr(2) None by (intro stops_at_failure_Cons) (simp_all add: failed_def)
      ultimately show ?thesis by blast
    qed
  qed
qed

lemma run_files_stops:
  "run_files sy envVars scripts arts w = (r, w') \<Longrightarrow>
     \<exists>tr. execs w' = execs w @ tr \<and> stops_at_failure tr r"
proof (induction arts arbitrary: w)
  case Nil
  then show ?case by (simp add: stops_at_failure_def)
next
  case (Cons art rest)
  obtain r1 w1 where one: "run_scripts sy envVars art scripts w = (r1, w1)"
    by (cases "run_scripts sy envVars art scripts w")
  from run_scripts_stops [OF one] obtain tr1 where
    tr1: "execs w1 = execs w @ tr1" "stops_at_failure tr1 r1" by blast
  show ?case
  proof (cases r1)
    case (Some e)
    with one Cons.prems have "r = r1" "w' = w1" by simp_all
    with tr1 show ?thesis by blast
  next
    case None
    with one Cons.prems have more: "run_files sy envVars scripts rest w1 = (r, w')" by simp
    from Cons.IH [OF more] obtain tr2 where
      tr2: "execs w' = execs w1 @ tr2" "stops_at_failure tr2 r" by blast
    from run_scripts_ok one None obtain tr1' where
      "execs w1 = execs w @ tr1'" "\<forall>ev \<in> set tr1'. \<not> failed ev \<and> ex_name ev = ''/bin/sh'' \<and> ex_env ev = envVars"
      by blast
    with tr1(1) have "list_all (\<lambda>ev. \<not> failed ev) tr1" by (simp add: list_all_iff)
    then have "stops_at_failure (tr1 @ tr2) r" using tr2(2) by (rule stops_at_failure_append)
    moreover have "execs w' = execs w @ (tr1 @ tr2)" using tr1(1) tr2(1) by simp
    ultimately show ?thesis by blast
  qed
qed

lemma execute_keep: "fst (snd (fst (execute sy name outputPath c keep scripts artifact w))) = keep"
  by (simp add: execute_def Let_def split: prod.splits option.splits)

lemma execute_nil: "snd (snd (fst (execute sy name outputPath c keep scripts artifact w))) \<noteq> None
   \<Longrightarrow> fst (fst (execute sy name outputPath c keep scripts artifact w)) = None"
  by (simp add: execute_def Let_def split: prod.splits option.splits)

lemma execute_stops:
  "execute sy name outputPath c keep scripts artifact w = ((a, k, e), w') \<Longrightarrow>
     \<exists>tr. execs w' = execs w @ tr \<and> stops_at_failure tr e \<and> (e \<noteq> None \<longrightarrow> a = None)"
proof -
  assume ex: "execute sy name outputPath c keep scripts artifact w = ((a, k, e), w')"
  let ?envVars = "[''PACKER_BUILD_NAME='' @ PackerBuildName c,
                   ''PACKER_BUILDER_TYPE='' @ PackerBuilderType c] @ elems (Vars c)"
  obtain r w1 where rf: "run_files sy ?envVars scripts (pa_Files artifact) w = (r, w1)"
    by (cases "run_files sy ?envVars scripts (pa_Files artifact) w")
  from ex rf have "e = r" "w' = w1" "e \<noteq> None \<longrightarrow> a = None"
    by (auto simp: execute_def Let_def split: option.splits)
  with run_files_stops [OF rf] show ?thesis by blast
qed

lemma execute_ok:
  "execute sy name outputPath c keep scripts artifact w = ((a, k, None), w') \<Longrightarrow>
     \<exists>tr. execs w' = execs w @ tr \<and>
          map ex_args tr = concat (map (\<lambda>art. map (\<lambda>path. [path, art]) scripts) (pa_Files artifact)) \<and>
          (\<forall>ev \<in> set tr. \<not> failed ev \<and> ex_name ev = ''/bin/sh'')"
proof -
  assume ex: "execute sy name outputPath c keep scripts artifact w = ((a, k, None), w')"
  let ?envVars = "[''PACKER_BUILD_NAME='' @ PackerBuildName c,
                   ''PACKER_BUILDER_TYPE='' @ PackerBuilderType c] @ elems (Vars c)"
  obtain r w1 where rf: "run_files sy ?envVars scripts (pa_Files artifact) w = (r, w1)"
    by (cases "run_files sy ?envVars scripts (pa_Files artifact) w")
  from ex rf have "r = None" "w' = w1"
    by (auto simp: execute_def Let_def split: option.splits)
  with run_files_ok [of sy ?envVars scripts "pa_Files artifact" w w1] rf show ?thesis by blast
qed

lemma PostProcess_stops:
  assumes pp: "PostProcess sy name outputPath c artifact w = ((a, k, e), w')"
  shows "\<exists>tr. execs w' = execs w @ tr \<and> stops_at_failure tr e \<and> (e \<noteq> None \<longrightarrow> a = None)"
proof (cases "Inline c")
  case None
  with pp have "execute sy name outputPath c (KeepInputArtifact c) (elems (Scripts c)) artifact w
      = ((a, k, e), w')"
    by (simp add: PostProcess_def)
  then show ?thesis by (rule execute_stops)
next
  case (Some commands)
  note inl = Some
  show ?thesis
  proof (cases "sys_TempFile sy (files w)")
    case (Inl x)
    with inl pp have "w' = w" "a = None" by (simp_all add: PostProcess_def)
    then have "execs w' = execs w @ []" by simp
    moreover have "stops_at_failure [] e" by (simp add: stops_at_failure_def)
    ultimately show ?thesis using \<open>a = None\<close> by blast
  next
    case (Inr tf)
    let ?w1 = "w\<lparr>files := (files w)(tf \<mapsto> [])\<rparr>"
    obtain r2 w2 where wi: "write_inline sy c commands tf ?w1 = (r2, w2)"
      by (cases "write_inline sy c commands tf ?w1")
    have e2: "execs w2 = execs w" using write_inline_execs [of sy c commands tf ?w1] wi by simp
    show ?thesis
    proof (cases r2)
      case (Some x)
      with inl Inr wi pp have "w' = snd (os_Remove sy tf w2)" "a = None"
        by (simp_all add: PostProcess_def Let_def)
      then have "execs w' = execs w @ []" using e2 by (simp add: os_Remove_execs)
      moreover have "stops_at_failure [] e" by (simp add: stops_at_failure_def)
      ultimately show ?thesis using \<open>a = None\<close> by blast
    next
      case None
      obtain r3 w3 where ex: "execute sy name outputPath c (KeepInputArtifact c)
          (elems (Scripts c) @ [tf]) artifact w2 = (r3, w3)"
        by (cases "execute sy name outputPath c (KeepInputArtifact c) (elems (Scripts c) @ [tf]) artifact w2")
      with None inl Inr wi pp have "r3 = (a, k, e)" "w' = snd (os_Remove sy tf w3)"
        by (simp_all add: PostProcess_def Let_def)
      with ex execute_stops [of sy name outputPath c _ _ artifact w2 a k e w3] obtain tr where
        "execs w3 = execs w2 @ tr" "stops_at_failure tr e" "e \<noteq> None \<longrightarrow> a = None" by blast
      with e2 \<open>w' = _\<close> show ?thesis by (auto simp: os_Remove_execs)
    qed
  qed
qed

lemma PostProcess_ok:
  assumes pp: "PostProcess sy name outputPath c artifact w = ((a, k, None), w')"
  shows "\<exists>tr. execs w' = execs w @ tr \<and>
          map ex_args tr = concat (map (\<lambda>art. map (\<lambda>path. [path, art]) (resolved_scripts sy c w))
                                        (pa_Files artifact)) \<and>
          (\<forall>ev \<in> set tr. \<not> failed ev \<and> ex_name ev = ''/bin/sh'')"
proof (cases "Inline c")
  case None
  with pp have "execute sy name outputPath c (KeepInputArtifact c) (elems (Scripts c)) artifact w
      = ((a, k, None), w')"
    by (simp add: PostProcess_def)
  from execute_ok [OF this] None show ?thesis by (simp add: resolved_scripts_def)
next
  case (Some commands)
  note inl = Some
  show ?thesis
  proof (cases "sys_TempFile sy (files w)")
    case (Inl x)
    with inl pp show ?thesis by (simp add: PostProcess_def)
  next
    case (Inr tf)
    let ?w1 = "w\<lparr>files := (files w)(tf \<mapsto> [])\<rparr>"
    obtain r2 w2 where wi: "write_inline sy c commands tf ?w1 = (r2, w2)"
      by (cases "write_inline sy c commands tf ?w1")
    have e2: "execs w2 = execs w" using write_inline_execs [of sy c commands tf ?w1] wi by simp
    show ?thesis
    proof (cases r2)
      case (Some x)
      with inl Inr wi pp show ?thesis by (simp add: PostProcess_def Let_def)
    next
      case None
      obtain r3 w3 where ex: "execute sy name outputPath c (KeepInputArtifact c)
          (elems (Scripts c) @ [tf]) artifact w2 = (r3, w3)"
        by (cases "execute sy name outputPath c (KeepInputArtifact c) (elems (Scripts c) @ [tf]) artifact w2")
      with None inl Inr wi pp have "r3 = (a, k, None)" "w' = snd (os_Remove sy tf w3)"
        by (simp_all add: PostProcess_def Let_def)
      with ex execute_ok [of sy name outputPath c _ _ artifact w2 a k w3] obtain tr where
        "execs w3 = execs w2 @ tr"
        "map ex_args tr = concat (map (\<lambda>art. map (\<lambda>path. [path, art]) (elems (Scripts c) @ [tf]))
                                        (pa_Files artifact))"
        "\<forall>ev \<in> set tr. \<not> failed ev \<and> ex_name ev = ''/bin/sh''" by blast
      with e2 \<open>w' = _\<close> inl Inr show ?thesis
        by (auto simp: os_Remove_execs resolved_scripts_def)
    qed
  qed
qed

subsection \<open>The errors of Configure\<close>

lemma stat_scripts_eq: "stat_scripts sy fs paths errs = errs @ stat_errors sy fs paths"
  by (induction paths arbitrary: errs)
     (simp_all add: stat_errors_def MultiErrorAppend_def split: option.splits)

lemma check_vars_eq: "check_vars kvs errs = errs @ var_errors kvs"
  by (induction kvs arbitrary: errs)
     (simp_all add: var_errors_def malformed_def MultiErrorAppend_def Let_def)

lemma render_templates_errs:
  "\<exists>xs. snd (render_templates tm ks (c, errs)) = errs @ xs \<and> list_all processing_error xs"
proof (induction ks arbitrary: c errs)
  case Nil
  then show ?case by simp
next
  case (Cons n ns)
  show ?case
  proof (cases "n = ''inline_shebang''")
    case True
    let ?r = "Render tm (InlineShebang c)"
    show ?thesis
    proof (cases "snd ?r")
      case None
      with True Cons.IH [of "c\<lparr>InlineShebang := fst ?r\<rparr>" errs] show ?thesis
        by (simp add: Let_def)
    next
      case (Some e)
      let ?m = "''Error processing '' @ n @ '': '' @ e"
      from Cons.IH [of "c\<lparr>InlineShebang := fst ?r\<rparr>" "errs @ [?m]"] obtain xs where
        xs: "snd (render_templates tm ns (c\<lparr>InlineShebang := fst ?r\<rparr>, errs @ [?m])) = (errs @ [?m]) @ xs"
          "list_all processing_error xs" by blast
      have "processing_error ?m" by (simp add: processing_error_def)
      with xs True Some have "snd (render_templates tm (n # ns) (c, errs)) = errs @ (?m # xs)"
        "list_all processing_error (?m # xs)"
        by (simp_all add: Let_def MultiErrorAppend_def)
      then show ?thesis by blast
    qed
  next
    case False
    note ns = False
    show ?thesis
    proof (cases "n = ''script''")
      case True
      let ?r = "Render tm (Script c)"
      show ?thesis
      proof (cases "snd ?r")
        case None
        with True ns Cons.IH [of "c\<lparr>Script := fst ?r\<rparr>" errs] show ?thesis
          by (simp add: Let_def)
      next
        case (Some e)
        let ?m = "''Error processing '' @ n @ '': '' @ e"
        from Cons.IH [of "c\<lparr>Script := fst ?r\<rparr>" "errs @ [?m]"] obtain xs where
          xs: "snd (render_templates tm ns (c\<lparr>Script := fst ?r\<rparr>, errs @ [?m])) = (errs @ [?m]) @ xs"
            "list_all processing_error xs" by blast
        have "processing_error ?m" by (simp add: processing_error_def)
        with xs True ns Some have "snd (render_templates tm (n # ns) (c, errs)) = errs @ (?m # xs)"
          "list_all processing_error (?m # xs)"
          by (simp_all add: Let_def MultiErrorAppend_def)
        then show ?thesis by blast
      qed
    next
      case False
      with ns Cons.IH [of c errs] show ?thesis by simp
    qed
  qed
qed

lemma render_templates_fields:
  "Inline (fst (render_templates tm ks (c, errs))) = Inline c \<and>
   Scripts (fst (render_templates tm ks (c, errs))) = Scripts c \<and>
   Vars (fst (render_templates tm ks (c, errs))) = Vars c \<and>
   KeepInputArtifact (fst (render_templates tm ks (c, errs))) = KeepInputArtifact c"
  by (induction ks arbitrary: c errs) (simp_all add: Let_def)

lemma render_elems_errs:
  "\<exists>xs. snd (render_elems tm n i es errs) = errs @ xs \<and> list_all processing_error xs"
proof (induction es arbitrary: i errs)
  case Nil
  then show ?case by simp
next
  case (Cons elem rest)
  let ?r = "Render tm elem"
  show ?case
  proof (cases "snd ?r")
    case None
    with Cons.IH [of "Suc i" errs] show ?thesis by (simp add: Let_def)
  next
    case (Some e)
    let ?m = "''Error processing '' @ n @ ''['' @ decimal i @ '']: '' @ e"
    from Cons.IH [of "Suc i" "errs @ [?m]"] obtain xs where
      xs: "snd (render_elems tm n (Suc i) rest (errs @ [?m])) = (errs @ [?m]) @ xs"
        "list_all processing_error xs" by blast
    have "processing_error ?m" by (simp add: processing_error_def)
    with xs Some have "snd (render_elems tm n i (elem # rest) errs) = errs @ (?m # xs)"
      "list_all processing_error (?m # xs)"
      by (simp_all add: Let_def MultiErrorAppend_def)
    then show ?thesis by blast
  qed
qed

lemma render_elems_length: "length (fst (render_elems tm n i es errs)) = length es"
  by (induction es arbitrary: i errs) (simp_all add: Let_def)

lemma render_slice_errs:
  "\<exists>xs. snd (render_slice tm n s errs) = errs @ xs \<and> list_all processing_error xs"
proof (cases s)
  case None
  then show ?thesis by (simp add: render_slice_def)
next
  case (Some es)
  with render_elems_errs [of tm n 0 es errs] show ?thesis
    by (simp add: render_slice_def Let_def)
qed

lemma render_slice_shape:
  "len (fst (render_slice tm n s errs)) = len s \<and>
   (fst (render_slice tm n s errs) = None) = (s = None)"
  by (cases s) (simp_all add: render_slice_def Let_def len_def render_elems_length)

lemma render_slices_errs:
  "\<exists>xs. snd (render_slices tm ks (c, errs)) = errs @ xs \<and> list_all processing_error xs"
proof (induction ks arbitrary: c errs)
  case Nil
  then show ?case by simp
next
  case (Cons n ns)
  have step: "\<exists>xs. snd (render_slices tm ns (c', snd (render_slice tm n s errs))) = errs @ xs \<and>
                  list_all processing_error xs" for c' s
  proof -
    from render_slice_errs [of tm n s errs] obtain xs1 where
      a: "snd (render_slice tm n s errs) = errs @ xs1" "list_all processing_error xs1" by blast
    from Cons.IH [of c' "errs @ xs1"] obtain xs2 where
      b: "snd (render_slices tm ns (c', errs @ xs1)) = (errs @ xs1) @ xs2"
        "list_all processing_error xs2" by blast
    from a b have "snd (render_slices tm ns (c', snd (render_slice tm n s errs))) = errs @ (xs1 @ xs2)"
      "list_all processing_error (xs1 @ xs2)" by simp_all
    then show ?thesis by blast
  qed
  show ?case
  proof (cases "n = ''inline''")
    case True
    with step [of "c\<lparr>Inline := fst (render_slice tm n (Inline c) errs)\<rparr>" "Inline c"]
    show ?thesis by (simp add: Let_def)
  next
    case False
    note ni = False
    show ?thesis
    proof (cases "n = ''scripts''")
      case True
      with ni step [of "c\<lparr>Scripts := fst (render_slice tm n (Scripts c) errs)\<rparr>" "Scripts c"]
      show ?thesis by (simp add: Let_def)
    next
      case False
      note nsc = False
      show ?thesis
      proof (cases "n = ''environment_vars''")
        case True
        with ni nsc step [of "c\<lparr>Vars := fst (render_slice tm n (Vars c) errs)\<rparr>" "Vars c"]
        show ?thesis by (simp add: Let_def)
      next
        case False
        with ni nsc Cons.IH [of c errs] show ?thesis by simp
      qed
    qed
  qed
qed

lemma render_slices_fields:
  "len (Inline (fst (render_slices tm ks (c, errs)))) = len (Inline c) \<and>
   (Inline (fst (render_slices tm ks (c, errs))) = None) = (Inline c = None) \<and>
   len (Scripts (fst (render_slices tm ks (c, errs)))) = len (Scripts c) \<and>
   len (Vars (fst (render_slices tm ks (c, errs)))) = len (Vars c) \<and>
   KeepInputArtifact (fst (render_slices tm ks (c, errs))) = KeepInputArtifact c \<and>
   InlineShebang (fst (render_slices tm ks (c, errs))) = InlineShebang c"
  by (induction ks arbitrary: c errs) (simp_all add: Let_def render_slice_shape)

lemma render_templates_quiet:
  "\<forall>s. snd (Render tm s) = None \<Longrightarrow> snd (render_templates tm ks (c, errs)) = errs"
  by (induction ks arbitrary: c errs) (simp_all add: Let_def)

lemma render_elems_quiet:
  "\<forall>s. snd (Render tm s) = None \<Longrightarrow> snd (render_elems tm n i es errs) = errs"
  by (induction es arbitrary: i errs) (simp_all add: Let_def)

lemma render_slices_quiet:
  "\<forall>s. snd (Render tm s) = None \<Longrightarrow> snd (render_slices tm ks (c, errs)) = errs"
  by (induction ks arbitrary: c errs)
     (simp_all add: Let_def render_slice_def render_elems_quiet split: option.splits)

subsection \<open>The errors of the rendering loops\<close>

lemma render_templates_mono:
  "x \<in> set errs \<Longrightarrow> x \<in> set (snd (render_templates tm ks (c, errs)))"
  using render_templates_errs [of tm ks c errs] by auto

lemma render_elems_mono:
  "x \<in> set errs \<Longrightarrow> x \<in> set (snd (render_elems tm n i es errs))"
  using render_elems_errs [of tm n i es errs] by auto

lemma render_slice_mono:
  "x \<in> set errs \<Longrightarrow> x \<in> set (snd (render_slice tm n s errs))"
  using render_slice_errs [of tm n s errs] by auto

lemma render_slices_mono:
  "x \<in> set errs \<Longrightarrow> x \<in> set (snd (render_slices tm ks (c, errs)))"
  using render_slices_errs [of tm ks c errs] by auto

lemma render_templates_reports_shebang:
  "''inline_shebang'' \<in> set ks \<Longrightarrow> snd (Render tm (InlineShebang c)) = Some e \<Longrightarrow>
     ''Error processing inline_shebang: '' @ e \<in> set (snd (render_templates tm ks (c, errs)))"
proof (induction ks arbitrary: c errs)
  case Nil
  then show ?case by simp
next
  case (Cons n ns)
  let ?m = "''Error processing inline_shebang: '' @ e"
  show ?case
  proof (cases "n = ''inline_shebang''")
    case True
    let ?c1 = "c\<lparr>InlineShebang := fst (Render tm (InlineShebang c))\<rparr>"
    have u: "render_templates tm (n # ns) (c, errs) = render_templates tm ns (?c1, errs @ [?m])"
      using True Cons.prems(2) by (simp add: Let_def MultiErrorAppend_def)
    have "?m \<in> set (errs @ [?m])" by simp
    then show ?thesis unfolding u by (rule render_templates_mono)
  next
    case False
    with Cons.prems(1) have ins: "''inline_shebang'' \<in> set ns" by simp
    show ?thesis
    proof (cases "n = ''script''")
      case True
      let ?c1 = "c\<lparr>Script := fst (Render tm (Script c))\<rparr>"
      define errs' where "errs' = (case snd (Render tm (Script c)) of
                 Some e \<Rightarrow> MultiErrorAppend errs (''Error processing '' @ ''script'' @ '': '' @ e)
               | None \<Rightarrow> errs)"
      have u: "render_templates tm (n # ns) (c, errs) = render_templates tm ns (?c1, errs')"
        using True by (simp add: Let_def errs'_def)
      have "snd (Render tm (InlineShebang ?c1)) = Some e" using Cons.prems(2) by simp
      from Cons.IH [OF ins this] show ?thesis unfolding u .
    next
      case False
      with \<open>n \<noteq> ''inline_shebang''\<close> have
        u: "render_templates tm (n # ns) (c, errs) = render_templates tm ns (c, errs)" by simp
      from Cons.IH [OF ins Cons.prems(2)] show ?thesis unfolding u .
    qed
  qed
qed

lemma render_templates_reports_script:
  "''script'' \<in> set ks \<Longrightarrow> snd (Render tm (Script c)) = Some e \<Longrightarrow>
     ''Error processing script: '' @ e \<in> set (snd (render_templates tm ks (c, errs)))"
proof (induction ks arbitrary: c errs)
  case Nil
  then show ?case by simp
next
  case (Cons n ns)
  let ?m = "''Error processing script: '' @ e"
  show ?case
  proof (cases "n = ''inline_shebang''")
    case True
    with Cons.prems(1) have ins: "''script'' \<in> set ns" by simp
    let ?c1 = "c\<lparr>InlineShebang := fst (Render tm (InlineShebang c))\<rparr>"
    define errs' where "errs' = (case snd (Render tm (InlineShebang c)) of
               Some e \<Rightarrow> MultiErrorAppend errs (''Error processing '' @ ''inline_shebang'' @ '': '' @ e)
             | None \<Rightarrow> errs)"
    have u: "render_templates tm (n # ns) (c, errs) = render_templates tm ns (?c1, errs')"
      using True by (simp add: Let_def errs'_def)
    have "snd (Render tm (Script ?c1)) = Some e" using Cons.prems(2) by simp
    from Cons.IH [OF ins this] show ?thesis unfolding u .
  next
    case False
    note nsh = False
    show ?thesis
    proof (cases "n = ''script''")
      case True
      let ?c1 = "c\<lparr>Script := fst (Render tm (Script c))\<rparr>"
      have u: "render_templates tm (n # ns) (c, errs) = render_templates tm ns (?c1, errs @ [?m])"
        using True Cons.prems(2) by (simp add: Let_def MultiErrorAppend_def)
      have "?m \<in> set (errs @ [?m])" by simp
      then show ?thesis unfolding u by (rule render_templates_mono)
    next
      case False
      with Cons.prems(1) have ins: "''script'' \<in> set ns" by simp
      from False nsh have
        u: "render_templates tm (n # ns) (c, errs) = render_templates tm ns (c, errs)" by simp
      from Cons.IH [OF ins Cons.prems(2)] show ?thesis unfolding u .
    qed
  qed
qed

lemma render_elems_reports:
  "i < length es \<Longrightarrow> snd (Render tm (es ! i)) = Some e \<Longrightarrow>
     ''Error processing '' @ n @ ''['' @ decimal (k + i) @ '']: '' @ e
       \<in> set (snd (render_elems tm n k es errs))"
proof (induction es arbitrary: i k errs)
  case Nil
  then show ?case by simp
next
  case (Cons elem rest)
  define errs' where "errs' = (case snd (Render tm elem) of
                     Some e \<Rightarrow> MultiErrorAppend errs
                        (''Error processing '' @ n @ ''['' @ decimal k @ '']: '' @ e)
                   | None \<Rightarrow> errs)"
  have u: "snd (render_elems tm n k (elem # rest) errs) = snd (render_elems tm n (Suc k) rest errs')"
    by (simp add: Let_def errs'_def del: decimal.simps)
  show ?case
  proof (cases i)
    case 0
    with Cons.prems(2) have "snd (Render tm elem) = Some e" by simp
    then have "''Error processing '' @ n @ ''['' @ decimal (k + i) @ '']: '' @ e \<in> set errs'"
      using 0 by (simp add: errs'_def MultiErrorAppend_def del: decimal.simps)
    then show ?thesis unfolding u by (rule render_elems_mono)
  next
    case (Suc j)
    with Cons.prems have j: "j < length rest" "snd (Render tm (rest ! j)) = Some e" by simp_all
    have k: "k + i = Suc k + j" using Suc by simp
    from Cons.IH [OF j, of "Suc k" errs'] show ?thesis unfolding u k .
  qed
qed

lemma render_slice_reports:
  "i < length (elems s) \<Longrightarrow> snd (Render tm (elems s ! i)) = Some e \<Longrightarrow>
     ''Error processing '' @ n @ ''['' @ decimal i @ '']: '' @ e
       \<in> set (snd (render_slice tm n s errs))"
proof (cases s)
  case None
  assume "i < length (elems s)"
  with None show ?thesis by (simp add: elems_def)
next
  case (Some es)
  assume "i < length (elems s)" "snd (Render tm (elems s ! i)) = Some e"
  with Some have "i < length es" "snd (Render tm (es ! i)) = Some e" by (simp_all add: elems_def)
  from render_elems_reports [OF this, of n 0 errs] Some show ?thesis
    by (simp add: render_slice_def Let_def del: decimal.simps)
qed

lemma render_elems_values:
  "fst (render_elems tm n i es errs) = map (\<lambda>s. fst (Render tm s)) es"
  by (induction es arbitrary: i errs) (simp_all add: Let_def del: decimal.simps)

lemma render_slice_values:
  "elems (fst (render_slice tm n s errs)) = map (\<lambda>s. fst (Render tm s)) (elems s)"
  by (cases s) (simp_all add: render_slice_def Let_def elems_def render_elems_values)

lemma render_slices_step:
  "render_slices tm (n # ns) (c, errs) =
     (if n = ''inline'' then
        render_slices tm ns (c\<lparr>Inline := fst (render_slice tm n (Inline c) errs)\<rparr>,
                             snd (render_slice tm n (Inline c) errs))
      else if n = ''scripts'' then
        render_slices tm ns (c\<lparr>Scripts := fst (render_slice tm n (Scripts c) errs)\<rparr>,
                             snd (render_slice tm n (Scripts c) errs))
      else if n = ''environment_vars'' then
        render_slices tm ns (c\<lparr>Vars := fst (render_slice tm n (Vars c) errs)\<rparr>,
                             snd (render_slice tm n (Vars c) errs))
      else render_slices tm ns (c, errs))"
  by (simp add: Let_def)

lemma render_slices_skip_inline:
  assumes "n \<noteq> ''inline''"
    and "\<And>c1 errs1. Inline c1 = Inline c \<Longrightarrow> P (render_slices tm ns (c1, errs1))"
  shows "P (render_slices tm (n # ns) (c, errs))"
  unfolding render_slices_step using assms by simp

lemma render_slices_reports_inline:
  "''inline'' \<in> set ks \<Longrightarrow> i < length (elems (Inline c)) \<Longrightarrow>
   snd (Render tm (elems (Inline c) ! i)) = Some e \<Longrightarrow>
     ''Error processing inline['' @ decimal i @ '']: '' @ e
       \<in> set (snd (render_slices tm ks (c, errs)))"
proof (induction ks arbitrary: c errs)
  case Nil
  then show ?case by simp
next
  case (Cons n ns)
  show ?case
  proof (cases "n = ''inline''")
    case True
    from render_slice_reports [OF Cons.prems(2,3), of "''inline''" errs]
    have "''Error processing inline['' @ decimal i @ '']: '' @ e
        \<in> set (snd (render_slice tm n (Inline c) errs))"
      using True by (simp del: decimal.simps)
    then have "''Error processing inline['' @ decimal i @ '']: '' @ e
        \<in> set (snd (render_slices tm ns
              (c\<lparr>Inline := fst (render_slice tm n (Inline c) errs)\<rparr>,
               snd (render_slice tm n (Inline c) errs))))"
      by (rule render_slices_mono)
    then show ?thesis unfolding render_slices_step using True by (simp del: decimal.simps)
  next
    case False
    with Cons.prems(1) have ins: "''inline'' \<in> set ns" by simp
    show ?thesis
    proof (rule render_slices_skip_inline [OF False])
      fix c1 :: Config and errs1 :: "string list"
      assume "Inline c1 = Inline c"
      with Cons.IH [OF ins, of c1 errs1] Cons.prems(2,3)
      show "''Error processing inline['' @ decimal i @ '']: '' @ e
          \<in> set (snd (render_slices tm ns (c1, errs1)))" by simp
    qed
  qed
qed

lemma render_slices_keeps_inline:
  "''inline'' \<notin> set ks \<Longrightarrow> Inline (fst (render_slices tm ks (c, errs))) = Inline c"
proof (induction ks arbitrary: c errs)
  case Nil
  then show ?case by simp
next
  case (Cons n ns)
  from Cons.prems have n: "n \<noteq> ''inline''" and ns: "''inline'' \<notin> set ns" by auto
  show ?case
  proof (rule render_slices_skip_inline [OF n])
    fix c1 :: Config and errs1 :: "string list"
    assume "Inline c1 = Inline c"
    with Cons.IH [OF ns, of c1 errs1]
    show "Inline (fst (render_slices tm ns (c1, errs1))) = Inline c" by simp
  qed
qed

lemma render_slices_once_inline:
  "distinct ks \<Longrightarrow> ''inline'' \<in> set ks \<Longrightarrow>
     elems (Inline (fst (render_slices tm ks (c, errs))))
       = map (\<lambda>s. fst (Render tm s)) (elems (Inline c))"
proof (induction ks arbitrary: c errs)
  case Nil
  then show ?case by simp
next
  case (Cons n ns)
  show ?case
  proof (cases "n = ''inline''")
    case True
    with Cons.prems(1) have "''inline'' \<notin> set ns" by simp
    from render_slices_keeps_inline [OF this] True show ?thesis
      unfolding render_slices_step by (simp add: render_slice_values)
  next
    case False
    with Cons.prems have ins: "''inline'' \<in> set ns" and d: "distinct ns" by simp_all
    show ?thesis
    proof (rule render_slices_skip_inline [OF False])
      fix c1 :: Config and errs1 :: "string list"
      assume "Inline c1 = Inline c"
      with Cons.IH [OF d ins, of c1 errs1]
      show "elems (Inline (fst (render_slices tm ns (c1, errs1))))
          = map (\<lambda>s. fst (Render tm s)) (elems (Inline c))" by simp
    qed
  qed
qed

lemma render_slices_skip_scripts:
  assumes "n \<noteq> ''scripts''"
    and "\<And>c1 errs1. Scripts c1 = Scripts c \<Longrightarrow> P (render_slices tm ns (c1, errs1))"
  shows "P (render_slices tm (n # ns) (c, errs))"
  unfolding render_slices_step using assms by simp

lemma render_slices_reports_scripts:
  "''scripts'' \<in> set ks \<Longrightarrow> i < length (elems (Scripts c)) \<Longrightarrow>
   snd (Render tm (elems (Scripts c) ! i)) = Some e \<Longrightarrow>
     ''Error processing scripts['' @ decimal i @ '']: '' @ e
       \<in> set (snd (render_slices tm ks (c, errs)))"
proof (induction ks arbitrary: c errs)
  case Nil
  then show ?case by simp
next
  case (Cons n ns)
  show ?case
  proof (cases "n = ''scripts''")
    case True
    from render_slice_reports [OF Cons.prems(2,3), of "''scripts''" errs]
    have "''Error processing scripts['' @ decimal i @ '']: '' @ e
        \<in> set (snd (render_slice tm n (Scripts c) errs))"
      using True by (simp del: decimal.simps)
    then have "''Error processing scripts['' @ decimal i @ '']: '' @ e
        \<in> set (snd (render_slices tm ns
              (c\<lparr>Scripts := fst (render_slice tm n (Scripts c) errs)\<rparr>,
               snd (render_slice tm n (Scripts c) errs))))"
      by (rule render_slices_mono)
    then show ?thesis unfolding render_slices_step using True by (simp del: decimal.simps)
  next
    case False
    with Cons.prems(1) have ins: "''scripts'' \<in> set ns" by simp
    show ?thesis
    proof (rule render_slices_skip_scripts [OF False])
      fix c1 :: Config and errs1 :: "string list"
      assume "Scripts c1 = Scripts c"
      with Cons.IH [OF ins, of c1 errs1] Cons.prems(2,3)
      show "''Error processing scripts['' @ decimal i @ '']: '' @ e
          \<in> set (snd (render_slices tm ns (c1, errs1)))" by simp
    qed
  qed
qed

lemma render_slices_keeps_scripts:
  "''scripts'' \<notin> set ks \<Longrightarrow> Scripts (fst (render_slices tm ks (c, errs))) = Scripts c"
proof (induction ks arbitrary: c errs)
  case Nil
  then show ?case by simp
next
  case (Cons n ns)
  from Cons.prems have n: "n \<noteq> ''scripts''" and ns: "''scripts'' \<notin> set ns" by auto
  show ?case
  proof (rule render_slices_skip_scripts [OF n])
    fix c1 :: Config and errs1 :: "string list"
    assume "Scripts c1 = Scripts c"
    with Cons.IH [OF ns, of c1 errs1]
    show "Scripts (fst (render_slices tm ns (c1, errs1))) = Scripts c" by simp
  qed
qed

lemma render_slices_once_scripts:
  "distinct ks \<Longrightarrow> ''scripts'' \<in> set ks \<Longrightarrow>
     elems (Scripts (fst (render_slices tm ks (c, errs))))
       = map (\<lambda>s. fst (Render tm s)) (elems (Scripts c))"
proof (induction ks arbitrary: c errs)
  case Nil
  then show ?case by simp
next
  case (Cons n ns)
  show ?case
  proof (cases "n = ''scripts''")
    case True
    with Cons.prems(1) have "''scripts'' \<notin> set ns" by simp
    from render_slices_keeps_scripts [OF this] True show ?thesis
      unfolding render_slices_step by (simp add: render_slice_values)
  next
    case False
    with Cons.prems have ins: "''scripts'' \<in> set ns" and d: "distinct ns" by simp_all
    show ?thesis
    proof (rule render_slices_skip_scripts [OF False])
      fix c1 :: Config and errs1 :: "string list"
      assume "Scripts c1 = Scripts c"
      with Cons.IH [OF d ins, of c1 errs1]
      show "elems (Scripts (fst (render_slices tm ns (c1, errs1))))
          = map (\<lambda>s. fst (Render tm s)) (elems (Scripts c))" by simp
    qed
  qed
qed

lemma render_slices_skip_environment_vars:
  assumes "n \<noteq> ''environment_vars''"
    and "\<And>c1 errs1. Vars c1 = Vars c \<Longrightarrow> P (render_slices tm ns (c1, errs1))"
  shows "P (render_slices tm (n # ns) (c, errs))"
  unfolding render_slices_step using assms by simp

lemma render_slices_reports_environment_vars:
  "''environment_vars'' \<in> set ks \<Longrightarrow> i < length (elems (Vars c)) \<Longrightarrow>
   snd (Render tm (elems (Vars c) ! i)) = Some e \<Longrightarrow>
     ''Error processing environment_vars['' @ decimal i @ '']: '' @ e
       \<in> set (snd (render_slices tm ks (c, errs)))"
proof (induction ks arbitrary: c errs)
  case Nil
  then show ?case by simp
next
  case (Cons n ns)
  show ?case
  proof (cases "n = ''environment_vars''")
    case True
    from render_slice_reports [OF Cons.prems(2,3), of "''environment_vars''" errs]
    have "''Error processing environment_vars['' @ decimal i @ '']: '' @ e
        \<in> set (snd (render_slice tm n (Vars c) errs))"
      using True by (simp del: decimal.simps)
    then have "''Error processing environment_vars['' @ decimal i @ '']: '' @ e
        \<in> set (snd (render_slices tm ns
              (c\<lparr>Vars := fst (render_slice tm n (Vars c) errs)\<rparr>,
               snd (render_slice tm n (Vars c) errs))))"
      by (rule render_slices_mono)
    then show ?thesis unfolding render_slices_step using True by (simp del: decimal.simps)
  next
    case False
    with Cons.prems(1) have ins: "''environment_vars'' \<in> set ns" by simp
    show ?thesis
    proof (rule render_slices_skip_environment_vars [OF False])
      fix c1 :: Config and errs1 :: "string list"
      assume "Vars c1 = Vars c"
      with Cons.IH [OF ins, of c1 errs1] Cons.prems(2,3)
      show "''Error processing environment_vars['' @ decimal i @ '']: '' @ e
          \<in> set (snd (render_slices tm ns (c1, errs1)))" by simp
    qed
  qed
qed

lemma render_slices_keeps_environment_vars:
  "''environment_vars'' \<notin> set ks \<Longrightarrow> Vars (fst (render_slices tm ks (c, errs))) = Vars c"
proof (induction ks arbitrary: c errs)
  case Nil
  then show ?case by simp
next
  case (Cons n ns)
  from Cons.prems have n: "n \<noteq> ''environment_vars''" and ns: "''environment_vars'' \<notin> set ns" by auto
  show ?case
  proof (rule render_slices_skip_environment_vars [OF n])
    fix c1 :: Config and errs1 :: "string list"
    assume "Vars c1 = Vars c"
    with Cons.IH [OF ns, of c1 errs1]
    show "Vars (fst (render_slices tm ns (c1, errs1))) = Vars c" by simp
  qed
qed

lemma render_slices_once_environment_vars:
  "distinct ks \<Longrightarrow> ''environment_vars'' \<in> set ks \<Longrightarrow>
     elems (Vars (fst (render_slices tm ks (c, errs))))
       = map (\<lambda>s. fst (Render tm s)) (elems (Vars c))"
proof (induction ks arbitrary: c errs)
  case Nil
  then show ?case by simp
next
  case (Cons n ns)
  show ?case
  proof (cases "n = ''environment_vars''")
    case True
    with Cons.prems(1) have "''environment_vars'' \<notin> set ns" by simp
    from render_slices_keeps_environment_vars [OF this] True show ?thesis
      unfolding render_slices_step by (simp add: render_slice_values)
  next
    case False
    with Cons.prems have ins: "''environment_vars'' \<in> set ns" and d: "distinct ns" by simp_all
    show ?thesis
    proof (rule render_slices_skip_environment_vars [OF False])
      fix c1 :: Config and errs1 :: "string list"
      assume "Vars c1 = Vars c"
      with Cons.IH [OF d ins, of c1 errs1]
      show "elems (Vars (fst (render_slices tm ns (c1, errs1))))
          = map (\<lambda>s. fst (Render tm s)) (elems (Vars c))" by simp
    qed
  qed
qed

subsection \<open>The stages of Configure\<close>

lemma Configure_stages:
  obtains c4 st6 where
    "Configure sy tm torder sorder fs (c, None) =
       (if length (check_vars (elems (Vars (fst st6)))
                     (stat_scripts sy fs (elems (Scripts (fst st6)))
                        (snd st6 @ presence_errors (fst st6)))) > 0
        then (Some (MultiError (check_vars (elems (Vars (fst st6)))
                     (stat_scripts sy fs (elems (Scripts (fst st6)))
                        (snd st6 @ presence_errors (fst st6))))), fst st6)
        else (None, fst st6))"
    "st6 = render_slices tm sorder (render_templates tm torder (c4, early_errors tm c))"
    "Inline c4 = Inline c"
    "len (Scripts c4) = (if Script c \<noteq> [] then 1 else len (Scripts c))"
    "len (Vars c4) = len (Vars c)"
    "KeepInputArtifact c4 = KeepInputArtifact c"
    "InlineShebang c4 = (if InlineShebang c = [] then ''/bin/sh'' else InlineShebang c)"
    "Script c4 = Script c"
    "elems (Scripts c4) = (if Script c \<noteq> [] then [Script c] else elems (Scripts c))"
    "elems (Vars c4) = elems (Vars c)"
proof -
  define c1 where "c1 = (if InlineShebang c = [] then c\<lparr>InlineShebang := ''/bin/sh''\<rparr> else c)"
  define c2 where "c2 = (if Scripts c1 = None then c1\<lparr>Scripts := Some []\<rparr> else c1)"
  define c3 where "c3 = (if Vars c2 = None then c2\<lparr>Vars := Some []\<rparr> else c2)"
  define errs1 where "errs1 = (if Script c3 \<noteq> [] \<and> len (Scripts c3) > 0
                       then MultiErrorAppend []
                              ''Only one of script or scripts can be specified.''
                       else [])"
  define c4 where "c4 = (if Script c3 \<noteq> [] then c3\<lparr>Scripts := Some [Script c3]\<rparr> else c3)"
  define errs2 where "errs2 = (case Validate tm (TargetPath c4) of
                         Some e \<Rightarrow> MultiErrorAppend errs1
                                     (''Error parsing target template: '' @ e)
                       | None \<Rightarrow> errs1)"
  define st6 where "st6 = render_slices tm sorder (render_templates tm torder (c4, errs2))"
  define errs7 where "errs7 = (if len (Scripts (fst st6)) = 0 \<and> Inline (fst st6) = None
                       then MultiErrorAppend (snd st6)
                              ''Either a script file or inline script must be specified.''
                       else if len (Scripts (fst st6)) > 0 \<and> Inline (fst st6) \<noteq> None
                       then MultiErrorAppend (snd st6)
                              ''Only a script file or an inline script can be specified, not both.''
                       else snd st6)"
  define errs9 where "errs9 = check_vars (elems (Vars (fst st6)))
                                (stat_scripts sy fs (elems (Scripts (fst st6))) errs7)"
  have R: "Configure sy tm torder sorder fs (c, None) =
             (if length errs9 > 0 then (Some (MultiError errs9), fst st6) else (None, fst st6))"
    unfolding Configure_def Let_def errs9_def errs7_def st6_def errs2_def c4_def errs1_def
      c3_def c2_def c1_def prod.case option.case by (rule refl)
  have c3: "Script c3 = Script c" "len (Scripts c3) = len (Scripts c)" "Inline c3 = Inline c"
    "len (Vars c3) = len (Vars c)" "KeepInputArtifact c3 = KeepInputArtifact c"
    "TargetPath c3 = TargetPath c"
    by (simp_all add: c3_def c2_def c1_def len_def)
  have len1: "len (Some [x]) = 1" for x :: string by (simp add: len_def)
  have c4: "TargetPath c4 = TargetPath c" "Inline c4 = Inline c"
    "len (Scripts c4) = (if Script c \<noteq> [] then 1 else len (Scripts c))"
    "len (Vars c4) = len (Vars c)" "KeepInputArtifact c4 = KeepInputArtifact c"
    using c3 len1 by (simp_all add: c4_def)
  have e3: "InlineShebang c3 = (if InlineShebang c = [] then ''/bin/sh'' else InlineShebang c)"
    "elems (Scripts c3) = elems (Scripts c)" "elems (Vars c3) = elems (Vars c)"
    by (simp_all add: c3_def c2_def c1_def elems_def)
  have el1: "elems (Some [x]) = [x]" for x :: string by (simp add: elems_def)
  have e4: "InlineShebang c4 = (if InlineShebang c = [] then ''/bin/sh'' else InlineShebang c)"
    "Script c4 = Script c"
    "elems (Scripts c4) = (if Script c \<noteq> [] then [Script c] else elems (Scripts c))"
    "elems (Vars c4) = elems (Vars c)"
    using c3(1) e3 el1 by (simp_all add: c4_def)
  have e2: "errs2 = early_errors tm c"
    by (simp add: errs2_def errs1_def early_errors_def c3 c4 MultiErrorAppend_def
        split: option.splits)
  have e7: "errs7 = snd st6 @ presence_errors (fst st6)"
    by (simp add: errs7_def presence_errors_def MultiErrorAppend_def)
  show ?thesis
    by (rule that [of st6 c4]) (simp_all only: R errs9_def e7 st6_def e2 c4 e4)
qed

lemma Configure_decomp:
  assumes "Configure sy tm torder sorder fs (c, None) = (r, c')"
  shows "\<exists>xs. errors_of r =
            early_errors tm c @ xs @ presence_errors c' @
            stat_errors sy fs (elems (Scripts c')) @ var_errors (elems (Vars c'))
          \<and> list_all processing_error xs
          \<and> ((\<forall>s. snd (Render tm s) = None) \<longrightarrow> xs = [])"
    and "r = (if errors_of r = [] then None else Some (MultiError (errors_of r)))"
    and "(Inline c' = None) = (Inline c = None)"
    and "len (Inline c') = len (Inline c)"
    and "len (Scripts c') = (if Script c \<noteq> [] then 1 else len (Scripts c))"
    and "len (Vars c') = len (Vars c)"
    and "KeepInputArtifact c' = KeepInputArtifact c"
proof -
  obtain c4 st6 where
    R: "Configure sy tm torder sorder fs (c, None) =
       (if length (check_vars (elems (Vars (fst st6)))
                     (stat_scripts sy fs (elems (Scripts (fst st6)))
                        (snd st6 @ presence_errors (fst st6)))) > 0
        then (Some (MultiError (check_vars (elems (Vars (fst st6)))
                     (stat_scripts sy fs (elems (Scripts (fst st6)))
                        (snd st6 @ presence_errors (fst st6))))), fst st6)
        else (None, fst st6))"
    and st6: "st6 = render_slices tm sorder (render_templates tm torder (c4, early_errors tm c))"
    and c4: "Inline c4 = Inline c"
      "len (Scripts c4) = (if Script c \<noteq> [] then 1 else len (Scripts c))"
      "len (Vars c4) = len (Vars c)"
      "KeepInputArtifact c4 = KeepInputArtifact c"
    and c4': "InlineShebang c4 = (if InlineShebang c = [] then ''/bin/sh'' else InlineShebang c)"
      "Script c4 = Script c"
      "elems (Scripts c4) = (if Script c \<noteq> [] then [Script c] else elems (Scripts c))"
      "elems (Vars c4) = elems (Vars c)"
    by (rule Configure_stages)
  let ?errs9 = "check_vars (elems (Vars (fst st6)))
                     (stat_scripts sy fs (elems (Scripts (fst st6)))
                        (snd st6 @ presence_errors (fst st6)))"
  from R assms have c': "c' = fst st6" by (simp split: if_splits)
  from R assms have r: "errors_of r = ?errs9" by (auto simp: errors_of_def split: if_splits)
  from R assms r show "r = (if errors_of r = [] then None else Some (MultiError (errors_of r)))"
    by (auto split: if_splits)
  obtain c5 e5 where r5: "render_templates tm torder (c4, early_errors tm c) = (c5, e5)"
    by (cases "render_templates tm torder (c4, early_errors tm c)")
  from render_templates_fields [of tm torder c4 "early_errors tm c"] r5 have c5:
    "Inline c5 = Inline c4" "Scripts c5 = Scripts c4" "Vars c5 = Vars c4"
    "KeepInputArtifact c5 = KeepInputArtifact c4" by simp_all
  from render_slices_fields [of tm sorder c5 e5] c5 c4 show
    "(Inline c' = None) = (Inline c = None)" "len (Inline c') = len (Inline c)"
    "len (Scripts c') = (if Script c \<noteq> [] then 1 else len (Scripts c))"
    "len (Vars c') = len (Vars c)" "KeepInputArtifact c' = KeepInputArtifact c"
    unfolding c' st6 r5 by simp_all
  obtain xs5 where xs5: "e5 = early_errors tm c @ xs5" "list_all processing_error xs5"
    "(\<forall>s. snd (Render tm s) = None) \<longrightarrow> xs5 = []"
    using render_templates_errs [of tm torder c4 "early_errors tm c"]
      render_templates_quiet [of tm torder c4 "early_errors tm c"] r5 by auto
  obtain xs6 where xs6: "snd st6 = e5 @ xs6" "list_all processing_error xs6"
    "(\<forall>s. snd (Render tm s) = None) \<longrightarrow> xs6 = []"
    using render_slices_errs [of tm sorder c5 e5] render_slices_quiet [of tm sorder c5 e5]
    by (auto simp: st6 r5)
  have "errors_of r = early_errors tm c @ (xs5 @ xs6) @ presence_errors c' @
          stat_errors sy fs (elems (Scripts c')) @ var_errors (elems (Vars c'))"
    by (simp add: r c' check_vars_eq stat_scripts_eq xs6 xs5)
  moreover have "list_all processing_error (xs5 @ xs6)" using xs5 xs6 by simp
  moreover have "(\<forall>s. snd (Render tm s) = None) \<longrightarrow> xs5 @ xs6 = []" using xs5 xs6 by simp
  ultimately show "\<exists>xs. errors_of r =
            early_errors tm c @ xs @ presence_errors c' @
            stat_errors sy fs (elems (Scripts c')) @ var_errors (elems (Vars c'))
          \<and> list_all processing_error xs
          \<and> ((\<forall>s. snd (Render tm s) = None) \<longrightarrow> xs = [])" by blast
qed

lemma render_templates_keeps:
  "Inline (fst (render_templates tm ks (c, errs))) = Inline c \<and>
   Scripts (fst (render_templates tm ks (c, errs))) = Scripts c \<and>
   Vars (fst (render_templates tm ks (c, errs))) = Vars c"
  using render_templates_fields [of tm ks c errs] by simp

lemma Configure_renders:
  assumes R: "Configure sy tm torder sorder fs (c, None) = (r, c')"
  shows "''inline_shebang'' \<in> set torder \<Longrightarrow>
           snd (Render tm (if InlineShebang c = [] then ''/bin/sh'' else InlineShebang c)) = Some e
           \<Longrightarrow> ''Error processing inline_shebang: '' @ e \<in> set (errors_of r)"
    and "''script'' \<in> set torder \<Longrightarrow> snd (Render tm (Script c)) = Some e
           \<Longrightarrow> ''Error processing script: '' @ e \<in> set (errors_of r)"
    and "''inline'' \<in> set sorder \<Longrightarrow> i < length (elems (Inline c)) \<Longrightarrow>
           snd (Render tm (elems (Inline c) ! i)) = Some e
           \<Longrightarrow> ''Error processing inline['' @ decimal i @ '']: '' @ e \<in> set (errors_of r)"
    and "''scripts'' \<in> set sorder \<Longrightarrow>
           i < length (if Script c \<noteq> [] then [Script c] else elems (Scripts c)) \<Longrightarrow>
           snd (Render tm ((if Script c \<noteq> [] then [Script c] else elems (Scripts c)) ! i)) = Some e
           \<Longrightarrow> ''Error processing scripts['' @ decimal i @ '']: '' @ e \<in> set (errors_of r)"
    and "''environment_vars'' \<in> set sorder \<Longrightarrow> i < length (elems (Vars c)) \<Longrightarrow>
           snd (Render tm (elems (Vars c) ! i)) = Some e
           \<Longrightarrow> ''Error processing environment_vars['' @ decimal i @ '']: '' @ e
                 \<in> set (errors_of r)"
    and "distinct sorder \<Longrightarrow> ''scripts'' \<in> set sorder \<Longrightarrow>
           elems (Scripts c') = map (\<lambda>s. fst (Render tm s))
                                  (if Script c \<noteq> [] then [Script c] else elems (Scripts c))"
    and "distinct sorder \<Longrightarrow> ''environment_vars'' \<in> set sorder \<Longrightarrow>
           elems (Vars c') = map (\<lambda>s. fst (Render tm s)) (elems (Vars c))"
    and "distinct sorder \<Longrightarrow> ''inline'' \<in> set sorder \<Longrightarrow>
           elems (Inline c') = map (\<lambda>s. fst (Render tm s)) (elems (Inline c))"
proof -
  obtain c4 st6 where
    S: "Configure sy tm torder sorder fs (c, None) =
       (if length (check_vars (elems (Vars (fst st6)))
                     (stat_scripts sy fs (elems (Scripts (fst st6)))
                        (snd st6 @ presence_errors (fst st6)))) > 0
        then (Some (MultiError (check_vars (elems (Vars (fst st6)))
                     (stat_scripts sy fs (elems (Scripts (fst st6)))
                        (snd st6 @ presence_errors (fst st6))))), fst st6)
        else (None, fst st6))"
    and st6: "st6 = render_slices tm sorder (render_templates tm torder (c4, early_errors tm c))"
    and c4: "Inline c4 = Inline c"
      "len (Scripts c4) = (if Script c \<noteq> [] then 1 else len (Scripts c))"
      "len (Vars c4) = len (Vars c)"
      "KeepInputArtifact c4 = KeepInputArtifact c"
    and c4': "InlineShebang c4 = (if InlineShebang c = [] then ''/bin/sh'' else InlineShebang c)"
      "Script c4 = Script c"
      "elems (Scripts c4) = (if Script c \<noteq> [] then [Script c] else elems (Scripts c))"
      "elems (Vars c4) = elems (Vars c)"
    by (rule Configure_stages)
  let ?errs9 = "check_vars (elems (Vars (fst st6)))
                     (stat_scripts sy fs (elems (Scripts (fst st6)))
                        (snd st6 @ presence_errors (fst st6)))"
  from S R have c': "c' = fst st6" by (simp split: if_splits)
  from S R have r: "errors_of r = ?errs9" by (auto simp: errors_of_def split: if_splits)
  have sub: "x \<in> set (snd st6) \<Longrightarrow> x \<in> set (errors_of r)" for x
    by (simp add: r check_vars_eq stat_scripts_eq)
  obtain c5 e5 where r5: "render_templates tm torder (c4, early_errors tm c) = (c5, e5)"
    by (cases "render_templates tm torder (c4, early_errors tm c)")
  from render_templates_keeps [of tm torder c4 "early_errors tm c"] r5 have c5:
    "Inline c5 = Inline c" "elems (Scripts c5) = (if Script c \<noteq> [] then [Script c] else elems (Scripts c))"
    "elems (Vars c5) = elems (Vars c)"
    using c4(1) c4'(3,4) by simp_all
  have s6: "st6 = render_slices tm sorder (c5, e5)" by (simp add: st6 r5)
  have sub5: "x \<in> set e5 \<Longrightarrow> x \<in> set (errors_of r)" for x
    using render_slices_mono [of x e5 tm sorder c5] sub by (simp add: s6)
  show "''Error processing inline_shebang: '' @ e \<in> set (errors_of r)"
    if "''inline_shebang'' \<in> set torder"
      "snd (Render tm (if InlineShebang c = [] then ''/bin/sh'' else InlineShebang c)) = Some e"
  proof -
    from that(2) have "snd (Render tm (InlineShebang c4)) = Some e" by (simp only: c4'(1))
    from render_templates_reports_shebang [OF that(1) this, of "early_errors tm c"] r5
    have "''Error processing inline_shebang: '' @ e \<in> set e5" by simp
    then show ?thesis by (rule sub5)
  qed
  show "''Error processing script: '' @ e \<in> set (errors_of r)"
    if "''script'' \<in> set torder" "snd (Render tm (Script c)) = Some e"
  proof -
    from that(2) have "snd (Render tm (Script c4)) = Some e" by (simp only: c4'(2))
    from render_templates_reports_script [OF that(1) this, of "early_errors tm c"] r5
    have "''Error processing script: '' @ e \<in> set e5" by simp
    then show ?thesis by (rule sub5)
  qed
  show "''Error processing inline['' @ decimal i @ '']: '' @ e \<in> set (errors_of r)"
    if "''inline'' \<in> set sorder" "i < length (elems (Inline c))"
      "snd (Render tm (elems (Inline c) ! i)) = Some e"
  proof -
    from that(2,3) have a: "i < length (elems (Inline c5))"
      "snd (Render tm (elems (Inline c5) ! i)) = Some e" by (simp_all only: c5(1))
    from render_slices_reports_inline [OF that(1) a, of e5]
    have "''Error processing inline['' @ decimal i @ '']: '' @ e \<in> set (snd st6)"
      by (simp only: s6)
    then show ?thesis by (rule sub)
  qed
  show "''Error processing scripts['' @ decimal i @ '']: '' @ e \<in> set (errors_of r)"
    if "''scripts'' \<in> set sorder"
      "i < length (if Script c \<noteq> [] then [Script c] else elems (Scripts c))"
      "snd (Render tm ((if Script c \<noteq> [] then [Script c] else elems (Scripts c)) ! i)) = Some e"
  proof -
    from that(2,3) have a: "i < length (elems (Scripts c5))"
      "snd (Render tm (elems (Scripts c5) ! i)) = Some e" by (simp_all only: c5(2))
    from render_slices_reports_scripts [OF that(1) a, of e5]
    have "''Error processing scripts['' @ decimal i @ '']: '' @ e \<in> set (snd st6)"
      by (simp only: s6)
    then show ?thesis by (rule sub)
  qed
  show "''Error processing environment_vars['' @ decimal i @ '']: '' @ e \<in> set (errors_of r)"
    if "''environment_vars'' \<in> set sorder" "i < length (elems (Vars c))"
      "snd (Render tm (elems (Vars c) ! i)) = Some e"
  proof -
    from that(2,3) have a: "i < length (elems (Vars c5))"
      "snd (Render tm (elems (Vars c5) ! i)) = Some e" by (simp_all only: c5(3))
    from render_slices_reports_environment_vars [OF that(1) a, of e5]
    have "''Error processing environment_vars['' @ decimal i @ '']: '' @ e \<in> set (snd st6)"
      by (simp only: s6)
    then show ?thesis by (rule sub)
  qed
  show "elems (Scripts c') = map (\<lambda>s. fst (Render tm s))
                                  (if Script c \<noteq> [] then [Script c] else elems (Scripts c))"
    if "distinct sorder" "''scripts'' \<in> set sorder"
    using render_slices_once_scripts [OF that, of tm c5 e5] by (simp only: c' s6 c5(2))
  show "elems (Vars c') = map (\<lambda>s. fst (Render tm s)) (elems (Vars c))"
    if "distinct sorder" "''environment_vars'' \<in> set sorder"
    using render_slices_once_environment_vars [OF that, of tm c5 e5] by (simp only: c' s6 c5(3))
  show "elems (Inline c') = map (\<lambda>s. fst (Render tm s)) (elems (Inline c))"
    if "distinct sorder" "''inline'' \<in> set sorder"
    using render_slices_once_inline [OF that, of tm c5 e5] by (simp only: c' s6 c5(1))
qed

lemma Configure_decode_fails:
  "Configure sy tm torder sorder fs (c, Some d) = (Some (DecodeError d), c)"
  by (simp add: Configure_def)

lemma in_stat_errors:
  "x \<in> set (stat_errors sy fs paths) \<longleftrightarrow>
     (\<exists>path \<in> set paths. \<exists>e. sys_Stat sy fs path = Some e \<and>
        x = ''Bad script '' @ squote @ path @ squote @ '': '' @ e)"
proof (induction paths)
  case Nil
  then show ?case by (simp add: stat_errors_def)
next
  case (Cons p ps)
  have "stat_errors sy fs (p # ps) =
      (case sys_Stat sy fs p of
         Some e \<Rightarrow> [''Bad script '' @ squote @ p @ squote @ '': '' @ e]
       | None \<Rightarrow> []) @ stat_errors sy fs ps"
    by (simp add: stat_errors_def)
  with Cons.IH show ?case
    by (cases "sys_Stat sy fs p") auto
qed

lemma malformed_iff: "malformed kv \<longleftrightarrow> (CHR ''='' \<notin> set kv \<or> take 1 kv = ''='')"
proof (cases kv)
  case Nil
  then show ?thesis by (simp add: malformed_def SplitN2_def)
next
  case (Cons x xs)
  then show ?thesis by (cases "x = CHR ''=''") (auto simp: malformed_def SplitN2_def)
qed

lemma in_var_errors:
  "x \<in> set (var_errors kvs) \<longleftrightarrow>
     (\<exists>kv \<in> set kvs. malformed kv \<and>
        x = ''Environment variable not in format '' @ squote @ ''key=value'' @ squote
              @ '': '' @ kv)"
proof (induction kvs)
  case Nil
  then show ?case by (simp add: var_errors_def)
next
  case (Cons kv kvs)
  have "var_errors (kv # kvs) =
      (if malformed kv
       then [''Environment variable not in format '' @ squote @ ''key=value'' @ squote
               @ '': '' @ kv]
       else []) @ var_errors kvs"
    by (simp add: var_errors_def)
  with Cons.IH show ?case
    by (cases "malformed kv") auto
qed



lemma decimal_0: "decimal 0 = ''0''"
  by (simp add: char_of_def bit_simps)

lemma Configure_cfg_worse:
  "Configure sys_ok tm_strict torder0 sorder0 Map.empty (cfg_worse, None) =
     (Some (MultiError [''Only one of script or scripts can be specified.'',
        ''Error processing inline[0]: unclosed action'',
        ''Only a script file or an inline script can be specified, not both.'',
        ''Environment variable not in format '' @ squote @ ''key=value'' @ squote
           @ '': foobar'']),
      cfg_raw\<lparr>Inline := Some [[]], InlineShebang := ''/bin/sh'', Script := ''/tmp/s1.sh'',
              Scripts := Some [''/tmp/s1.sh''], Vars := Some [''foobar'']\<rparr>)"
  by (simp add: Configure_def Let_def cfg_worse_def cfg_bad_def cfg_raw_def sys_ok_def
      tm_strict_def torder0_def sorder0_def len_def elems_def render_slice_def
      MultiErrorAppend_def SplitN2_def squote_def decimal_0 del: decimal.simps)


subsection \<open>Claims about PostProcess and the artifact\<close>

text \<open>
  C1. The spec asks that after a successful \<^verbatim>\<open>PostProcess\<close> the returned artifact
  answers \<^verbatim>\<open>BuilderId()\<close> as the incoming artifact does. \<^verbatim>\<open>PostProcess\<close> hands
  \<^verbatim>\<open>artifact.BuilderId()\<close> to \<^verbatim>\<open>NewArtifact\<close>, which leaves the field unset: on an
  artifact of builder \<^verbatim>\<open>mitchellh.virtualbox\<close> with no file the call succeeds and the
  returned artifact has the empty builder id.
\<close>

theorem PostProcess_loses_BuilderId:
  "fst (PostProcess sys_ok ''vbox'' ''out.box'' cfg_scripts (art_one\<lparr>pa_Files := []\<rparr>) world0)
     = (Some \<lparr>Path = ''out.box'', BuilderId = [], Provider = ''vbox''\<rparr>, True, None)
   \<and> map_option Artifact_BuilderId
        (fst (fst (PostProcess sys_ok ''vbox'' ''out.box'' cfg_scripts
                     (art_one\<lparr>pa_Files := []\<rparr>) world0))) = Some []
   \<and> pa_BuilderId (art_one\<lparr>pa_Files := []\<rparr>) = ''mitchellh.virtualbox''"
  by (simp add: PostProcess_def execute_def cfg_scripts_def art_one_def world0_def sys_ok_def
      elems_def NewArtifact_def Artifact_BuilderId_def)

text \<open>
  C2. Whenever a run started by \<^verbatim>\<open>PostProcess\<close> fails (the process does not start or
  exits non-zero), \<^verbatim>\<open>PostProcess\<close> returns no artifact and the error
  \<^verbatim>\<open>Unable to execute script: \<close> followed by the standard error of that run, and that
  run is the last one of the call: every run before it succeeded and none follows.
\<close>

theorem PostProcess_stops_at_first_failure:
  assumes "PostProcess sy name outputPath c artifact w = ((a, keep, err), w')"
    and "ev \<in> set (drop (length (execs w)) (execs w'))"
    and "run_err (ex_result ev) \<noteq> None"
  shows "err = Some (''Unable to execute script: '' @ run_stderr (ex_result ev)) \<and> a = None \<and>
         (\<exists>before. execs w' = execs w @ before @ [ev] \<and>
                   (\<forall>p \<in> set before. run_err (ex_result p) = None))"
proof -
  from PostProcess_stops [OF assms(1)] obtain tr where
    tr: "execs w' = execs w @ tr" "stops_at_failure tr err" "err \<noteq> None \<longrightarrow> a = None" by blast
  from tr(1) assms(2) have mem: "ev \<in> set tr" by simp
  from assms(3) have f: "failed ev" by (simp add: failed_def)
  from mem f have "\<not> list_all (\<lambda>ev. \<not> failed ev) tr" by (auto simp: list_all_iff)
  with tr(2) have ne: "tr \<noteq> []" and bl: "list_all (\<lambda>ev. \<not> failed ev) (butlast tr)"
    and e: "err = Some (''Unable to execute script: '' @ run_stderr (ex_result (last tr)))"
    by (auto simp: stops_at_failure_def)
  from ne have split: "tr = butlast tr @ [last tr]" by simp
  from mem f bl split have "ev = last tr"
    by (metis Un_iff insert_iff list_all_iff set_append list.set(2) empty_iff list.set(1))
  with e tr(1) tr(3) split bl show ?thesis
    by (auto simp: list_all_iff failed_def)
qed

theorem PostProcess_stops_at_first_failure_witness:
  "boom_event \<in> set (drop (length (execs world0))
      (execs (snd (PostProcess sys_boom ''vbox'' ''out.box'' cfg_scripts art_two world0))))
   \<and> run_err (ex_result boom_event) \<noteq> None
   \<and> snd (snd (fst (PostProcess sys_boom ''vbox'' ''out.box'' cfg_scripts art_two world0)))
       = Some ''Unable to execute script: boom''
   \<and> fst (fst (PostProcess sys_boom ''vbox'' ''out.box'' cfg_scripts art_two world0)) = None
   \<and> length (execs (snd (PostProcess sys_boom ''vbox'' ''out.box'' cfg_scripts art_two world0))) = 1"
proof -
  let ?R = "PostProcess sys_boom ''vbox'' ''out.box'' cfg_scripts art_two world0"
  have h1: "?R = ((fst (fst ?R), fst (snd (fst ?R)), snd (snd (fst ?R))), snd ?R)" by simp
  have ex: "execs (snd ?R) = [boom_event]"
    by (simp add: PostProcess_def execute_def Let_def cfg_scripts_def art_two_def art_one_def
        world0_def sys_boom_def sys_ok_def elems_def boom_event_def boom_result_def)
  have l: "length (execs world0) = 0" by (simp add: world0_def)
  have h2: "boom_event \<in> set (drop (length (execs world0)) (execs (snd ?R)))"
    unfolding ex l by simp
  have h3: "run_err (ex_result boom_event) \<noteq> None"
    by (simp add: boom_event_def boom_result_def)
  from PostProcess_stops_at_first_failure [OF h1 h2 h3] h2 h3 ex show ?thesis
    by (simp add: boom_event_def boom_result_def)
qed




text \<open>
  C5. When \<^verbatim>\<open>PostProcess\<close> succeeds, the runs of the call are exactly one run of
  \<^verbatim>\<open>/bin/sh\<close> per pair of a file and a script, with the arguments script, file, in
  file-major order: all scripts in order for the first file, then for the second, and
  so on. Their number is the number of files times the number of scripts.
\<close>

theorem PostProcess_file_major_order:
  assumes "PostProcess sy name outputPath c artifact w = ((a, keep, None), w')"
  shows "map ex_args (drop (length (execs w)) (execs w')) =
           concat (map (\<lambda>art. map (\<lambda>path. [path, art]) (resolved_scripts sy c w)) (pa_Files artifact))
         \<and> length (drop (length (execs w)) (execs w')) =
             length (pa_Files artifact) * length (resolved_scripts sy c w)
         \<and> (\<forall>ev \<in> set (drop (length (execs w)) (execs w')). ex_name ev = ''/bin/sh'')"
proof -
  from PostProcess_ok [OF assms] obtain tr where
    tr: "execs w' = execs w @ tr"
      "map ex_args tr = concat (map (\<lambda>art. map (\<lambda>path. [path, art]) (resolved_scripts sy c w))
                                        (pa_Files artifact))"
      "\<forall>ev \<in> set tr. \<not> failed ev \<and> ex_name ev = ''/bin/sh''" by blast
  have len: "length (concat (map (\<lambda>art. map (\<lambda>path. [path, art]) ss) fs)) = length fs * length ss"
    for ss fs :: "string list"
    by (induction fs) simp_all
  from tr(2) have "length tr = length (pa_Files artifact) * length (resolved_scripts sy c w)"
    using len by (metis length_map)
  with tr show ?thesis by simp
qed

theorem PostProcess_file_major_order_witness:
  "snd (snd (fst (PostProcess sys_ok ''vbox'' ''out.box'' cfg_scripts art_two world0))) = None
   \<and> map ex_args (drop (length (execs world0))
        (execs (snd (PostProcess sys_ok ''vbox'' ''out.box'' cfg_scripts art_two world0))))
     = [[''/tmp/s1.sh'', ''/tmp/a.box''], [''/tmp/s2.sh'', ''/tmp/a.box''],
        [''/tmp/s1.sh'', ''/tmp/b.box''], [''/tmp/s2.sh'', ''/tmp/b.box'']]
   \<and> length (drop (length (execs world0))
        (execs (snd (PostProcess sys_ok ''vbox'' ''out.box'' cfg_scripts art_two world0)))) = 4"
proof -
  let ?R = "PostProcess sys_ok ''vbox'' ''out.box'' cfg_scripts art_two world0"
  have e: "snd (snd (fst ?R)) = None"
    by (simp add: PostProcess_def execute_def Let_def cfg_scripts_def art_two_def art_one_def
        world0_def sys_ok_def elems_def ok_result_def)
  have h: "?R = ((fst (fst ?R), fst (snd (fst ?R)), None), snd ?R)"
    by (metis e prod.collapse)
  have rs: "resolved_scripts sys_ok cfg_scripts world0 = [''/tmp/s1.sh'', ''/tmp/s2.sh'']"
    by (simp add: resolved_scripts_def cfg_scripts_def elems_def)
  have fs: "pa_Files art_two = [''/tmp/a.box'', ''/tmp/b.box'']"
    by (simp add: art_two_def)
  from PostProcess_file_major_order [OF h] e show ?thesis
    by (simp add: rs fs)
qed



text \<open>
  C8. The artifact that \<^verbatim>\<open>PostProcess\<close> returns is an \<^verbatim>\<open>Artifact\<close> of package
  \<^verbatim>\<open>shell\<close>. Its \<^verbatim>\<open>Destroy\<close> is the removal of the file at the path the artifact
  stores and returns what the removal returns; when it returns no error the file was
  there before and is not there afterwards, and no other file has changed.
\<close>

theorem Destroy_removes_file:
  "Destroy sy a w = os_Remove sy (Path a) w \<and>
   (fst (Destroy sy a w) = None \<longrightarrow>
      files w (Path a) \<noteq> None \<and> files (snd (Destroy sy a w)) (Path a) = None \<and>
      (\<forall>p. p \<noteq> Path a \<longrightarrow> files (snd (Destroy sy a w)) p = files w p))"
  by (simp add: Destroy_def os_Remove_def Let_def split: option.splits)

theorem Destroy_removes_file_witness:
  "fst (Destroy sys_ok (NewArtifact ''vbox'' ''mitchellh.virtualbox'' ''out.box'')
         (world0\<lparr>files := [''out.box'' \<mapsto> ''image'']\<rparr>)) = None
   \<and> files (snd (Destroy sys_ok (NewArtifact ''vbox'' ''mitchellh.virtualbox'' ''out.box'')
                   (world0\<lparr>files := [''out.box'' \<mapsto> ''image'']\<rparr>))) ''out.box'' = None"
proof -
  let ?a = "NewArtifact ''vbox'' ''mitchellh.virtualbox'' ''out.box''"
  let ?w = "world0\<lparr>files := [''out.box'' \<mapsto> ''image'']\<rparr>"
  have h: "fst (Destroy sys_ok ?a ?w) = None"
    by (simp add: Destroy_def os_Remove_def Let_def NewArtifact_def world0_def sys_ok_def)
  have p: "Path ?a = ''out.box''" by (simp add: NewArtifact_def)
  have "files (snd (Destroy sys_ok ?a ?w)) (Path ?a) = None"
    using Destroy_removes_file [of sys_ok ?a ?w] h by blast
  with h p show ?thesis by simp
qed

text \<open>
  C10. On every return of \<^verbatim>\<open>PostProcess\<close> the boolean returned is the configured
  \<^verbatim>\<open>keep_input_artifact\<close>, and whenever an error is returned the artifact is \<^verbatim>\<open>nil\<close>.
\<close>

theorem PostProcess_keep_and_nil:
  "fst (snd (fst (PostProcess sy name outputPath c artifact w))) = KeepInputArtifact c
   \<and> (snd (snd (fst (PostProcess sy name outputPath c artifact w))) \<noteq> None
      \<longrightarrow> fst (fst (PostProcess sy name outputPath c artifact w)) = None)"
  by (auto simp add: PostProcess_def Let_def execute_keep execute_nil
      split: prod.splits option.splits sum.splits)

theorem PostProcess_keep_and_nil_witness:
  "snd (snd (fst (PostProcess sys_notemp ''vbox'' ''out.box'' cfg_inline art_one world0)))
     = Some ''Error preparing shell script: no space left on device''
   \<and> fst (fst (PostProcess sys_notemp ''vbox'' ''out.box'' cfg_inline art_one world0)) = None
   \<and> fst (snd (fst (PostProcess sys_notemp ''vbox'' ''out.box'' cfg_inline art_one world0)))
     = True"
proof -
  let ?R = "PostProcess sys_notemp ''vbox'' ''out.box'' cfg_inline art_one world0"
  have h: "snd (snd (fst ?R)) = Some ''Error preparing shell script: no space left on device''"
    by (simp add: PostProcess_def cfg_inline_def sys_notemp_def sys_ok_def)
  have k: "KeepInputArtifact cfg_inline = True"
    by (simp add: cfg_inline_def cfg_scripts_def)
  from PostProcess_keep_and_nil [of sys_notemp "''vbox''" "''out.box''" cfg_inline art_one world0]
    h k show ?thesis by simp
qed

subsection \<open>Claims about Configure\<close>

text \<open>
  C3, as the specification words it: for every raw configuration that violates
  several rules, the error returned holds one entry for each of them. This fails when
  \<^verbatim>\<open>config.Decode\<close> returns an error: lines 65 to 67 return that error before any
  check is made. For a configuration that has \<^verbatim>\<open>script\<close>, an element in \<^verbatim>\<open>scripts\<close>
  and the environment entry \<^verbatim>\<open>foobar\<close>, and that \<^verbatim>\<open>Decode\<close> rejects for a key it does
  not know, \<^verbatim>\<open>Configure\<close> returns the error of \<^verbatim>\<open>Decode\<close> and nothing else.
\<close>

theorem Configure_decode_error_alone:
  "Script cfg_bad \<noteq> [] \<and> 0 < len (Scripts cfg_bad) \<and>
   ''foobar'' \<in> set (elems (Vars cfg_bad)) \<and> CHR ''='' \<notin> set ''foobar'' \<and>
   Configure sys_ok tm_plain torder0 sorder0 Map.empty
     (cfg_bad, Some ''unknown configuration key: extra'')
     = (Some (DecodeError ''unknown configuration key: extra''), cfg_bad) \<and>
   errors_of (fst (Configure sys_ok tm_plain torder0 sorder0 Map.empty
                     (cfg_bad, Some ''unknown configuration key: extra'')))
     = [''unknown configuration key: extra'']"
  by (simp add: Configure_def errors_of_def cfg_bad_def cfg_raw_def len_def elems_def
      malformed_def SplitN2_def)

text \<open>
  C3, amended. When \<^verbatim>\<open>config.Decode\<close> returns an error, \<^verbatim>\<open>Configure\<close> returns that
  error alone and leaves the configuration as it was decoded. When \<^verbatim>\<open>Decode\<close>
  returns no error, \<^verbatim>\<open>Configure\<close> returns \<^verbatim>\<open>nil\<close> or one \<^verbatim>\<open>MultiError\<close>, and that
  error holds an entry for every rule that is violated, not for the first one only:
  \<^verbatim>\<open>script\<close> together with \<^verbatim>\<open>scripts\<close>; a target template that does not parse; a
  shebang (\<^verbatim>\<open>/bin/sh\<close> when none is given) or a \<^verbatim>\<open>script\<close> that does not render, when
  the loop over \<^verbatim>\<open>templates\<close> visits its key; every element, with its index, of
  \<^verbatim>\<open>inline\<close>, of the scripts (the one \<^verbatim>\<open>script\<close> when it is set, \<^verbatim>\<open>scripts\<close> otherwise)
  and of \<^verbatim>\<open>environment_vars\<close> that does not render, when the loop over
  \<^verbatim>\<open>sliceTemplates\<close> visits its key; neither scripts nor inline commands; both of
  them; every script of the resulting configuration that \<^verbatim>\<open>os.Stat\<close> rejects; and
  every environment entry of the resulting configuration that is not of the form
  key=value with a key, that is, that has no \<^verbatim>\<open>=\<close> or starts with one. When the loop over \<^verbatim>\<open>sliceTemplates\<close> visits each key once, as
  a loop over a map does, the scripts and the environment entries of the resulting
  configuration are the rendered scripts and entries of the decoded one.
\<close>

theorem Configure_reports_every_violation:
  assumes "Configure sy tm torder sorder fs (c, derr) = (r, c')"
  shows "(\<forall>d. derr = Some d \<longrightarrow> r = Some (DecodeError d) \<and> errors_of r = [d] \<and> c' = c) \<and>
    (derr = None \<longrightarrow>
      (r = None \<longleftrightarrow> errors_of r = []) \<and>
      (r \<noteq> None \<longrightarrow> r = Some (MultiError (errors_of r))) \<and>
      (Script c \<noteq> [] \<and> 0 < len (Scripts c) \<longrightarrow>
         ''Only one of script or scripts can be specified.'' \<in> set (errors_of r)) \<and>
      (\<forall>e. Validate tm (TargetPath c) = Some e \<longrightarrow>
         ''Error parsing target template: '' @ e \<in> set (errors_of r)) \<and>
      (\<forall>e. ''inline_shebang'' \<in> set torder \<and>
            snd (Render tm (if InlineShebang c = [] then ''/bin/sh'' else InlineShebang c)) = Some e
         \<longrightarrow> ''Error processing inline_shebang: '' @ e \<in> set (errors_of r)) \<and>
      (\<forall>e. ''script'' \<in> set torder \<and> snd (Render tm (Script c)) = Some e
         \<longrightarrow> ''Error processing script: '' @ e \<in> set (errors_of r)) \<and>
      (\<forall>i e. ''inline'' \<in> set sorder \<and> i < length (elems (Inline c)) \<and>
            snd (Render tm (elems (Inline c) ! i)) = Some e
         \<longrightarrow> ''Error processing inline['' @ decimal i @ '']: '' @ e \<in> set (errors_of r)) \<and>
      (\<forall>i e. ''scripts'' \<in> set sorder \<and>
            i < length (if Script c \<noteq> [] then [Script c] else elems (Scripts c)) \<and>
            snd (Render tm ((if Script c \<noteq> [] then [Script c] else elems (Scripts c)) ! i)) = Some e
         \<longrightarrow> ''Error processing scripts['' @ decimal i @ '']: '' @ e \<in> set (errors_of r)) \<and>
      (\<forall>i e. ''environment_vars'' \<in> set sorder \<and> i < length (elems (Vars c)) \<and>
            snd (Render tm (elems (Vars c) ! i)) = Some e
         \<longrightarrow> ''Error processing environment_vars['' @ decimal i @ '']: '' @ e
               \<in> set (errors_of r)) \<and>
      (Script c = [] \<and> len (Scripts c) = 0 \<and> Inline c = None \<longrightarrow>
         ''Either a script file or inline script must be specified.'' \<in> set (errors_of r)) \<and>
      ((Script c \<noteq> [] \<or> 0 < len (Scripts c)) \<and> Inline c \<noteq> None \<longrightarrow>
         ''Only a script file or an inline script can be specified, not both.''
           \<in> set (errors_of r)) \<and>
      (\<forall>path e. path \<in> set (elems (Scripts c')) \<and> sys_Stat sy fs path = Some e \<longrightarrow>
         ''Bad script '' @ squote @ path @ squote @ '': '' @ e \<in> set (errors_of r)) \<and>
      (\<forall>kv. kv \<in> set (elems (Vars c')) \<and> (CHR ''='' \<notin> set kv \<or> take 1 kv = ''='') \<longrightarrow>
         ''Environment variable not in format '' @ squote @ ''key=value'' @ squote @ '': '' @ kv
           \<in> set (errors_of r)) \<and>
      (distinct sorder \<and> ''scripts'' \<in> set sorder \<longrightarrow>
         elems (Scripts c') = map (\<lambda>s. fst (Render tm s))
                                (if Script c \<noteq> [] then [Script c] else elems (Scripts c))) \<and>
      (distinct sorder \<and> ''environment_vars'' \<in> set sorder \<longrightarrow>
         elems (Vars c') = map (\<lambda>s. fst (Render tm s)) (elems (Vars c))))"
proof (cases derr)
  case (Some d)
  with assms have "r = Some (DecodeError d)" "c' = c" by (simp_all add: Configure_decode_fails)
  with Some show ?thesis by (simp add: errors_of_def)
next
  case None
  with assms have R: "Configure sy tm torder sorder fs (c, None) = (r, c')" by simp
  from Configure_decomp(1) [OF R] obtain xs where
    d: "errors_of r = early_errors tm c @ xs @ presence_errors c' @
          stat_errors sy fs (elems (Scripts c')) @ var_errors (elems (Vars c'))" by blast
  note r = Configure_decomp(2) [OF R]
  note i = Configure_decomp(3) [OF R]
  note s = Configure_decomp(5) [OF R]
  have a: "(r = None \<longleftrightarrow> errors_of r = [])" "(r \<noteq> None \<longrightarrow> r = Some (MultiError (errors_of r)))"
    using r by (metis option.distinct(1))+
  have b: "Script c \<noteq> [] \<and> 0 < len (Scripts c) \<longrightarrow>
       ''Only one of script or scripts can be specified.'' \<in> set (errors_of r)"
    by (simp add: d early_errors_def)
  have t: "\<forall>e. Validate tm (TargetPath c) = Some e \<longrightarrow>
       ''Error parsing target template: '' @ e \<in> set (errors_of r)"
    by (simp add: d early_errors_def)
  have sh: "\<forall>e. ''inline_shebang'' \<in> set torder \<and>
            snd (Render tm (if InlineShebang c = [] then ''/bin/sh'' else InlineShebang c)) = Some e
         \<longrightarrow> ''Error processing inline_shebang: '' @ e \<in> set (errors_of r)"
    using Configure_renders(1) [OF R] by blast
  have sc: "\<forall>e. ''script'' \<in> set torder \<and> snd (Render tm (Script c)) = Some e
         \<longrightarrow> ''Error processing script: '' @ e \<in> set (errors_of r)"
    using Configure_renders(2) [OF R] by blast
  have il: "\<forall>i e. ''inline'' \<in> set sorder \<and> i < length (elems (Inline c)) \<and>
            snd (Render tm (elems (Inline c) ! i)) = Some e
         \<longrightarrow> ''Error processing inline['' @ decimal i @ '']: '' @ e \<in> set (errors_of r)"
    using Configure_renders(3) [OF R] by blast
  have sl: "\<forall>i e. ''scripts'' \<in> set sorder \<and>
            i < length (if Script c \<noteq> [] then [Script c] else elems (Scripts c)) \<and>
            snd (Render tm ((if Script c \<noteq> [] then [Script c] else elems (Scripts c)) ! i)) = Some e
         \<longrightarrow> ''Error processing scripts['' @ decimal i @ '']: '' @ e \<in> set (errors_of r)"
    using Configure_renders(4) [OF R] by blast
  have vl: "\<forall>i e. ''environment_vars'' \<in> set sorder \<and> i < length (elems (Vars c)) \<and>
            snd (Render tm (elems (Vars c) ! i)) = Some e
         \<longrightarrow> ''Error processing environment_vars['' @ decimal i @ '']: '' @ e
               \<in> set (errors_of r)"
    using Configure_renders(5) [OF R] by blast
  have n: "Script c = [] \<and> len (Scripts c) = 0 \<and> Inline c = None \<longrightarrow>
       ''Either a script file or inline script must be specified.'' \<in> set (errors_of r)"
    using i s by (simp add: d presence_errors_def)
  have m: "(Script c \<noteq> [] \<or> 0 < len (Scripts c)) \<and> Inline c \<noteq> None \<longrightarrow>
       ''Only a script file or an inline script can be specified, not both.''
         \<in> set (errors_of r)"
    using i s by (auto simp add: d presence_errors_def)
  have st: "\<forall>path e. path \<in> set (elems (Scripts c')) \<and> sys_Stat sy fs path = Some e \<longrightarrow>
       ''Bad script '' @ squote @ path @ squote @ '': '' @ e \<in> set (errors_of r)"
  proof (intro allI impI)
    fix path e
    assume "path \<in> set (elems (Scripts c')) \<and> sys_Stat sy fs path = Some e"
    then have "''Bad script '' @ squote @ path @ squote @ '': '' @ e
        \<in> set (stat_errors sy fs (elems (Scripts c')))"
      unfolding in_stat_errors by blast
    then show "''Bad script '' @ squote @ path @ squote @ '': '' @ e \<in> set (errors_of r)"
      by (simp add: d)
  qed
  have v: "\<forall>kv. kv \<in> set (elems (Vars c')) \<and> (CHR ''='' \<notin> set kv \<or> take 1 kv = ''='') \<longrightarrow>
       ''Environment variable not in format '' @ squote @ ''key=value'' @ squote @ '': '' @ kv
         \<in> set (errors_of r)"
  proof (intro allI impI)
    fix kv
    assume "kv \<in> set (elems (Vars c')) \<and> (CHR ''='' \<notin> set kv \<or> take 1 kv = ''='')"
    then have "kv \<in> set (elems (Vars c')) \<and> malformed kv" by (simp only: malformed_iff)
    then have "''Environment variable not in format '' @ squote @ ''key=value'' @ squote
          @ '': '' @ kv \<in> set (var_errors (elems (Vars c')))"
      unfolding in_var_errors by blast
    then show "''Environment variable not in format '' @ squote @ ''key=value'' @ squote
          @ '': '' @ kv \<in> set (errors_of r)"
      by (simp add: d)
  qed
  have os: "distinct sorder \<and> ''scripts'' \<in> set sorder \<longrightarrow>
         elems (Scripts c') = map (\<lambda>s. fst (Render tm s))
                                (if Script c \<noteq> [] then [Script c] else elems (Scripts c))"
    using Configure_renders(6) [OF R] by blast
  have ov: "distinct sorder \<and> ''environment_vars'' \<in> set sorder \<longrightarrow>
         elems (Vars c') = map (\<lambda>s. fst (Render tm s)) (elems (Vars c))"
    using Configure_renders(7) [OF R] by blast
  have S: "\<forall>d. derr = Some d \<longrightarrow> r = Some (DecodeError d) \<and> errors_of r = [d] \<and> c' = c"
    using None by simp
  from a b t sh sc il sl vl n m st v os ov
  have N: "(r = None \<longleftrightarrow> errors_of r = []) \<and>
      (r \<noteq> None \<longrightarrow> r = Some (MultiError (errors_of r))) \<and>
      (Script c \<noteq> [] \<and> 0 < len (Scripts c) \<longrightarrow>
         ''Only one of script or scripts can be specified.'' \<in> set (errors_of r)) \<and>
      (\<forall>e. Validate tm (TargetPath c) = Some e \<longrightarrow>
         ''Error parsing target template: '' @ e \<in> set (errors_of r)) \<and>
      (\<forall>e. ''inline_shebang'' \<in> set torder \<and>
            snd (Render tm (if InlineShebang c = [] then ''/bin/sh'' else InlineShebang c)) = Some e
         \<longrightarrow> ''Error processing inline_shebang: '' @ e \<in> set (errors_of r)) \<and>
      (\<forall>e. ''script'' \<in> set torder \<and> snd (Render tm (Script c)) = Some e
         \<longrightarrow> ''Error processing script: '' @ e \<in> set (errors_of r)) \<and>
      (\<forall>i e. ''inline'' \<in> set sorder \<and> i < length (elems (Inline c)) \<and>
            snd (Render tm (elems (Inline c) ! i)) = Some e
         \<longrightarrow> ''Error processing inline['' @ decimal i @ '']: '' @ e \<in> set (errors_of r)) \<and>
      (\<forall>i e. ''scripts'' \<in> set sorder \<and>
            i < length (if Script c \<noteq> [] then [Script c] else elems (Scripts c)) \<and>
            snd (Render tm ((if Script c \<noteq> [] then [Script c] else elems (Scripts c)) ! i)) = Some e
         \<longrightarrow> ''Error processing scripts['' @ decimal i @ '']: '' @ e \<in> set (errors_of r)) \<and>
      (\<forall>i e. ''environment_vars'' \<in> set sorder \<and> i < length (elems (Vars c)) \<and>
            snd (Render tm (elems (Vars c) ! i)) = Some e
         \<longrightarrow> ''Error processing environment_vars['' @ decimal i @ '']: '' @ e
               \<in> set (errors_of r)) \<and>
      (Script c = [] \<and> len (Scripts c) = 0 \<and> Inline c = None \<longrightarrow>
         ''Either a script file or inline script must be specified.'' \<in> set (errors_of r)) \<and>
      ((Script c \<noteq> [] \<or> 0 < len (Scripts c)) \<and> Inline c \<noteq> None \<longrightarrow>
         ''Only a script file or an inline script can be specified, not both.''
           \<in> set (errors_of r)) \<and>
      (\<forall>path e. path \<in> set (elems (Scripts c')) \<and> sys_Stat sy fs path = Some e \<longrightarrow>
         ''Bad script '' @ squote @ path @ squote @ '': '' @ e \<in> set (errors_of r)) \<and>
      (\<forall>kv. kv \<in> set (elems (Vars c')) \<and> (CHR ''='' \<notin> set kv \<or> take 1 kv = ''='') \<longrightarrow>
         ''Environment variable not in format '' @ squote @ ''key=value'' @ squote @ '': '' @ kv
           \<in> set (errors_of r)) \<and>
      (distinct sorder \<and> ''scripts'' \<in> set sorder \<longrightarrow>
         elems (Scripts c') = map (\<lambda>s. fst (Render tm s))
                                (if Script c \<noteq> [] then [Script c] else elems (Scripts c))) \<and>
      (distinct sorder \<and> ''environment_vars'' \<in> set sorder \<longrightarrow>
         elems (Vars c') = map (\<lambda>s. fst (Render tm s)) (elems (Vars c)))"
    by (intro conjI)
  from S impI [of "derr = None", OF N] show ?thesis by (rule conjI)
qed

theorem Configure_reports_every_violation_witness:
  "Script cfg_worse \<noteq> [] \<and> 0 < len (Scripts cfg_worse) \<and> Inline cfg_worse \<noteq> None
   \<and> ''inline'' \<in> set sorder0
   \<and> snd (Render tm_strict (elems (Inline cfg_worse) ! 0)) = Some ''unclosed action''
   \<and> CHR ''='' \<notin> set ''foobar''
   \<and> ''foobar'' \<in> set (elems (Vars (snd (Configure sys_ok tm_strict torder0 sorder0 Map.empty
                                              (cfg_worse, None)))))
   \<and> ''Only one of script or scripts can be specified.''
       \<in> set (errors_of (fst (Configure sys_ok tm_strict torder0 sorder0 Map.empty
                                 (cfg_worse, None))))
   \<and> ''Error processing inline[0]: unclosed action''
       \<in> set (errors_of (fst (Configure sys_ok tm_strict torder0 sorder0 Map.empty
                                 (cfg_worse, None))))
   \<and> ''Only a script file or an inline script can be specified, not both.''
       \<in> set (errors_of (fst (Configure sys_ok tm_strict torder0 sorder0 Map.empty
                                 (cfg_worse, None))))
   \<and> ''Environment variable not in format '' @ squote @ ''key=value'' @ squote @ '': foobar''
       \<in> set (errors_of (fst (Configure sys_ok tm_strict torder0 sorder0 Map.empty
                                 (cfg_worse, None))))
   \<and> length (errors_of (fst (Configure sys_ok tm_strict torder0 sorder0 Map.empty
                                 (cfg_worse, None)))) = 4"
proof -
  let ?R = "Configure sys_ok tm_strict torder0 sorder0 Map.empty (cfg_worse, None)"
  have h: "?R = (fst ?R, snd ?R)" by simp
  have a: "Script cfg_worse \<noteq> [] \<and> 0 < len (Scripts cfg_worse)" "Inline cfg_worse \<noteq> None"
    by (simp_all add: cfg_worse_def cfg_bad_def cfg_raw_def len_def)
  have o: "''inline'' \<in> set sorder0" by (simp add: sorder0_def)
  have i: "0 < length (elems (Inline cfg_worse))"
    "snd (Render tm_strict (elems (Inline cfg_worse) ! 0)) = Some ''unclosed action''"
    by (simp_all add: cfg_worse_def cfg_bad_def cfg_raw_def elems_def tm_strict_def)
  have b: "CHR ''='' \<notin> set ''foobar''" by simp
  have c: "''foobar'' \<in> set (elems (Vars (snd ?R)))"
    by (simp add: Configure_cfg_worse elems_def)
  have l: "length (errors_of (fst ?R)) = 4"
    by (simp add: Configure_cfg_worse errors_of_def)
  note z = decimal_0
  note N = Configure_reports_every_violation [OF h, THEN conjunct2, THEN mp, OF refl]
  note k2 = N [THEN conjunct2, THEN conjunct2, THEN conjunct1]
  note k6 = N [THEN conjunct2, THEN conjunct2, THEN conjunct2, THEN conjunct2, THEN conjunct2,
      THEN conjunct2, THEN conjunct1]
  note k10 = N [THEN conjunct2, THEN conjunct2, THEN conjunct2, THEN conjunct2, THEN conjunct2,
      THEN conjunct2, THEN conjunct2, THEN conjunct2, THEN conjunct2, THEN conjunct2,
      THEN conjunct1]
  note k12 = N [THEN conjunct2, THEN conjunct2, THEN conjunct2, THEN conjunct2, THEN conjunct2,
      THEN conjunct2, THEN conjunct2, THEN conjunct2, THEN conjunct2, THEN conjunct2,
      THEN conjunct2, THEN conjunct2, THEN conjunct1]
  from k2 a(1)
  have e2: "''Only one of script or scripts can be specified.'' \<in> set (errors_of (fst ?R))"
    by (rule mp)
  from k6 o i
  have e6: "''Error processing inline['' @ decimal 0 @ '']: '' @ ''unclosed action''
       \<in> set (errors_of (fst ?R))"
    by blast
  from k10 a
  have e10: "''Only a script file or an inline script can be specified, not both.''
       \<in> set (errors_of (fst ?R))"
    by blast
  from k12 b c
  have e12: "''Environment variable not in format '' @ squote @ ''key=value'' @ squote @ '': ''
          @ ''foobar'' \<in> set (errors_of (fst ?R))"
    by blast
  from e2 e6 e10 e12 a o i b c l show ?thesis by (simp add: z del: decimal.simps)
qed

text \<open>
  C7, as the specification words it: whenever \<^verbatim>\<open>script\<close> is set and \<^verbatim>\<open>scripts\<close> has
  an element, the error of \<^verbatim>\<open>Configure\<close> includes the error for this pair. This
  fails when \<^verbatim>\<open>config.Decode\<close> returns an error: \<^verbatim>\<open>Configure\<close> then fails with the
  error of \<^verbatim>\<open>Decode\<close>, which has no entry for the pair.
\<close>

theorem Configure_decode_error_hides_exclusion:
  "Script cfg_bad \<noteq> [] \<and> 0 < len (Scripts cfg_bad) \<and>
   fst (Configure sys_ok tm_plain torder0 sorder0 Map.empty
          (cfg_bad, Some ''unknown configuration key: extra''))
     = Some (DecodeError ''unknown configuration key: extra'') \<and>
   ''Only one of script or scripts can be specified.''
     \<notin> set (errors_of (fst (Configure sys_ok tm_plain torder0 sorder0 Map.empty
                               (cfg_bad, Some ''unknown configuration key: extra''))))"
  by (simp add: Configure_def errors_of_def cfg_bad_def cfg_raw_def len_def)

text \<open>
  C7, amended. When \<^verbatim>\<open>script\<close> is set and \<^verbatim>\<open>scripts\<close> has an element, \<^verbatim>\<open>Configure\<close>
  fails. When \<^verbatim>\<open>config.Decode\<close> returned no error it fails with a \<^verbatim>\<open>MultiError\<close>
  that holds the error for this pair,
  \<^verbatim>\<open>Only one of script or scripts can be specified.\<close>; when \<^verbatim>\<open>Decode\<close> returned an
  error it fails with that error.
\<close>

theorem Configure_script_and_scripts:
  assumes "Script c \<noteq> []" and "0 < len (Scripts c)"
  shows "fst (Configure sy tm torder sorder fs (c, derr)) \<noteq> None \<and>
         (derr = None \<longrightarrow>
            (\<exists>errs. fst (Configure sy tm torder sorder fs (c, derr)) = Some (MultiError errs) \<and>
               ''Only one of script or scripts can be specified.'' \<in> set errs)) \<and>
         (\<forall>d. derr = Some d \<longrightarrow>
            fst (Configure sy tm torder sorder fs (c, derr)) = Some (DecodeError d))"
proof (cases derr)
  case (Some d)
  then show ?thesis by (simp add: Configure_decode_fails)
next
  case None
  obtain r c' where R: "Configure sy tm torder sorder fs (c, None) = (r, c')"
    by (cases "Configure sy tm torder sorder fs (c, None)")
  from Configure_decomp(1) [OF R] obtain xs where
    d: "errors_of r = early_errors tm c @ xs @ presence_errors c' @
          stat_errors sy fs (elems (Scripts c')) @ var_errors (elems (Vars c'))" by blast
  from assms have m: "''Only one of script or scripts can be specified.'' \<in> set (errors_of r)"
    by (simp add: d early_errors_def)
  then have "errors_of r \<noteq> []" by auto
  with Configure_decomp(2) [OF R] have "r = Some (MultiError (errors_of r))" by simp
  with m R None show ?thesis by auto
qed

theorem Configure_script_and_scripts_witness:
  "Script cfg_bad \<noteq> [] \<and> 0 < len (Scripts cfg_bad) \<and>
   (\<exists>errs. fst (Configure sys_ok tm_plain torder0 sorder0 Map.empty (cfg_bad, None))
              = Some (MultiError errs) \<and>
            ''Only one of script or scripts can be specified.'' \<in> set errs)"
proof -
  have a: "Script cfg_bad \<noteq> []" by (simp add: cfg_bad_def cfg_raw_def)
  have b: "0 < len (Scripts cfg_bad)" by (simp add: cfg_bad_def cfg_raw_def len_def)
  from Configure_script_and_scripts [OF a b, of sys_ok tm_plain torder0 sorder0 Map.empty None]
    a b show ?thesis by blast
qed



end
